theory Spec2Isabelle
  imports Main "HOL-Library.Word" "HOL-Library.Monad_Syntax"
begin

section \<open>Data model of conv2d.cu\<close>

text \<open>
  The kernels mix three integer types: \<open>size_t\<close> (64 bits, every field of the geometry
  descriptor and every offset computed from them), \<open>unsigned int\<close> (32 bits, the thread
  index \<open>i\<close> and the running quotient \<open>idx\<close>) and \<open>int\<close> (the counter \<open>b\<close> of the two
  batch loops, declared by \<open>auto b = 0\<close>). The unsigned types are words, whose
  arithmetic wraps; the loop counter is an \<open>int\<close> with its upper limit written out.
\<close>

type_synonym size_t = "64 word"
type_synonym uint = "32 word"

record Conv2DOp =
  stride :: size_t
  padding :: size_t
  kernel :: size_t
  batch :: size_t
  chan_in :: size_t
  chan_out :: size_t
  h_in :: size_t
  h_out :: size_t
  w_in :: size_t
  w_out :: size_t

text \<open>The builtin coordinates of one thread: \<open>blockIdx.x\<close>, \<open>blockDim.x\<close>, \<open>threadIdx.x\<close>.\<close>

record thread =
  blockIdx_x :: uint
  blockDim_x :: uint
  threadIdx_x :: uint

text \<open>\<open>unsigned int i = blockIdx.x * blockDim.x + threadIdx.x;\<close>\<close>

definition thread_index :: "thread \<Rightarrow> uint" where
  "thread_index t = blockIdx_x t * blockDim_x t + threadIdx_x t"

text \<open>
  A tensor is a dense array of elements behind a pointer, indexed by a flat offset.
  The element type is a parameter: the extractors and the broadcast only copy elements,
  the reducer needs \<open>0\<close> and \<open>+\<close> and no law about them (\<open>float\<close> addition has none).
\<close>

type_synonym 'a buffer = "nat \<Rightarrow> 'a"

text \<open>
  What one thread of an extractor does to memory: nothing (one of the early
  \<open>return\<close>s), or the single statement \<open>patches[dst] = source[src]\<close>.
\<close>

datatype access = Skip | Copy nat nat

definition apply_access :: "'a buffer \<Rightarrow> 'a buffer \<Rightarrow> access \<Rightarrow> 'a buffer" where
  "apply_access source patches a =
     (case a of Skip \<Rightarrow> patches | Copy dst src \<Rightarrow> patches(dst := source src))"

text \<open>
  One step of the decomposition chain, \<open>const size_t r = idx % d; idx /= d;\<close>:
  \<open>idx\<close> is promoted to \<open>size_t\<close> for both operations and the quotient is converted
  back to \<open>unsigned int\<close>. A zero divisor is undefined behaviour: \<open>None\<close>.
\<close>

definition divmod_idx :: "uint \<Rightarrow> size_t \<Rightarrow> (size_t \<times> uint) option" where
  "divmod_idx idx d =
     (if d = 0 then None
      else Some ((ucast idx :: size_t) mod d, (ucast ((ucast idx :: size_t) div d) :: uint)))"

section \<open>unfold_input_into_patches\<close>

text \<open>
  The result of a chain of guards: \<open>Rejected\<close> when one of them took its \<open>return\<close>,
  \<open>Solved v\<close> with the coordinate that was computed when all of them passed.
\<close>

datatype solved = Rejected | Solved size_t

text \<open>
  The two guards on a source coordinate, written twice in the source (for \<open>y\<close> from
  \<open>oh, k1, h_in\<close> and for \<open>x\<close> from \<open>ow, k2, w_in\<close>):
  \<open>y_plus_p = oh * stride + k1; if (y_plus_p < padding) return;
  y = y_plus_p - padding; if (y >= h_in) return;\<close>
\<close>

definition solve_in :: "size_t \<Rightarrow> size_t \<Rightarrow> size_t \<Rightarrow> size_t \<Rightarrow> size_t \<Rightarrow> solved" where
  "solve_in oh strd k1 pad ext =
     (let y_plus_p = oh * strd + k1
      in if y_plus_p < pad then Rejected
         else let y = y_plus_p - pad
              in if ext \<le> y then Rejected else Solved y)"

text \<open>
  \<open>const auto patches_numel = op.batch * op.chan_in * op.kernel * op.kernel * op.h_out * op.w_out;\<close>
\<close>

definition unfold_input_numel :: "Conv2DOp \<Rightarrow> size_t" where
  "unfold_input_numel op =
     batch op * chan_in op * kernel op * kernel op * h_out op * w_out op"

text \<open>
  The decomposition of the thread index, innermost dimension first; the result lists the
  coordinates in the order of the shape, \<open>(b, c, k1, k2, oh, ow)\<close>.
\<close>

definition unfold_input_coords ::
  "Conv2DOp \<Rightarrow> uint \<Rightarrow> (size_t \<times> size_t \<times> size_t \<times> size_t \<times> size_t \<times> size_t) option" where
  "unfold_input_coords op i =
     do {
       (ow, idx) \<leftarrow> divmod_idx i (w_out op);
       (oh, idx) \<leftarrow> divmod_idx idx (h_out op);
       (k2, idx) \<leftarrow> divmod_idx idx (kernel op);
       (k1, idx) \<leftarrow> divmod_idx idx (kernel op);
       (c, idx) \<leftarrow> divmod_idx idx (chan_in op);
       (b, idx) \<leftarrow> divmod_idx idx (batch op);
       Some (b, c, k1, k2, oh, ow)
     }"

text \<open>
  \<open>i_image = b * (op.chan_in * op.h_in * op.w_in) + c * (op.h_in * op.w_in) + y * (op.w_in) + x;\<close>
\<close>

definition image_offset :: "Conv2DOp \<Rightarrow> size_t \<Rightarrow> size_t \<Rightarrow> size_t \<Rightarrow> size_t \<Rightarrow> size_t" where
  "image_offset op b c y x =
     b * (chan_in op * h_in op * w_in op) + c * (h_in op * w_in op) + y * w_in op + x"

text \<open>
  The body of the kernel up to its last statement, for one thread: \<open>Some Skip\<close> for each
  \<open>return\<close>, \<open>Some (Copy i i_image)\<close> when the thread reaches
  \<open>patches[i] = image[i_image]\<close>, and \<open>None\<close> for undefined behaviour.
\<close>

definition unfold_input_access :: "Conv2DOp \<Rightarrow> thread \<Rightarrow> access option" where
  "unfold_input_access op t =
     (let i = thread_index t;
          patches_numel = unfold_input_numel op
      in if patches_numel \<le> (ucast i :: size_t) then Some Skip
         else do {
           (b, c, k1, k2, oh, ow) \<leftarrow> unfold_input_coords op i;
           (case solve_in oh (stride op) k1 (padding op) (h_in op) of
              Rejected \<Rightarrow> Some Skip
            | Solved y \<Rightarrow>
                (case solve_in ow (stride op) k2 (padding op) (w_in op) of
                   Rejected \<Rightarrow> Some Skip
                 | Solved x \<Rightarrow>
                     (let i_image = image_offset op b c y x
                      in Some (Copy (unat i) (unat i_image)))))
         })"

text \<open>The kernel for one thread: the patches buffer after the thread has run.\<close>

definition unfold_input_into_patches ::
  "Conv2DOp \<Rightarrow> 'a buffer \<Rightarrow> 'a buffer \<Rightarrow> thread \<Rightarrow> 'a buffer option" where
  "unfold_input_into_patches op img patches t =
     map_option (apply_access img patches) (unfold_input_access op t)"

section \<open>unfold_output_into_patches\<close>

text \<open>
  The three guards that recover an output coordinate, written twice in the source (for
  \<open>oh\<close> from \<open>y, k1, h_out\<close> and for \<open>ow\<close> from \<open>x, k2, w_out\<close>):
  \<open>oh = y + padding; if (oh < k1) return; oh -= k1;
  if (oh % stride != 0) return; oh /= stride; if (oh >= h_out) return;\<close>
  The remainder and the quotient by a zero stride are undefined behaviour: \<open>None\<close>.
\<close>

definition solve_out :: "size_t \<Rightarrow> size_t \<Rightarrow> size_t \<Rightarrow> size_t \<Rightarrow> size_t \<Rightarrow> solved option" where
  "solve_out y pad k1 strd ext =
     (let oh = y + pad
      in if oh < k1 then Some Rejected
         else let oh = oh - k1
              in if strd = 0 then None
                 else if oh mod strd \<noteq> 0 then Some Rejected
                 else let oh = oh div strd
                      in if ext \<le> oh then Some Rejected else Some (Solved oh))"

text \<open>
  \<open>const auto patches_numel = op.batch * op.chan_out * op.kernel * op.kernel * op.h_in * op.w_in;\<close>
\<close>

definition unfold_output_numel :: "Conv2DOp \<Rightarrow> size_t" where
  "unfold_output_numel op =
     batch op * chan_out op * kernel op * kernel op * h_in op * w_in op"

text \<open>The decomposition of the thread index into \<open>(b, o, k1, k2, y, x)\<close>.\<close>

definition unfold_output_coords ::
  "Conv2DOp \<Rightarrow> uint \<Rightarrow> (size_t \<times> size_t \<times> size_t \<times> size_t \<times> size_t \<times> size_t) option" where
  "unfold_output_coords op i =
     do {
       (x, idx) \<leftarrow> divmod_idx i (w_in op);
       (y, idx) \<leftarrow> divmod_idx idx (h_in op);
       (k2, idx) \<leftarrow> divmod_idx idx (kernel op);
       (k1, idx) \<leftarrow> divmod_idx idx (kernel op);
       (oc, idx) \<leftarrow> divmod_idx idx (chan_out op);
       (b, idx) \<leftarrow> divmod_idx idx (batch op);
       Some (b, oc, k1, k2, y, x)
     }"

text \<open>
  \<open>image_i = b * (op.chan_out * op.h_out * op.w_out) + o * (op.h_out * op.w_out) + oh * (op.w_out) + ow;\<close>
\<close>

definition image_out_offset :: "Conv2DOp \<Rightarrow> size_t \<Rightarrow> size_t \<Rightarrow> size_t \<Rightarrow> size_t \<Rightarrow> size_t" where
  "image_out_offset op b oc oh ow =
     b * (chan_out op * h_out op * w_out op) + oc * (h_out op * w_out op) + oh * w_out op + ow"

text \<open>
  The body of the kernel up to its last statement, for one thread; the thread reaches
  \<open>patches[i] = image_out[image_i]\<close> when all six guards pass.
\<close>

definition unfold_output_access :: "Conv2DOp \<Rightarrow> thread \<Rightarrow> access option" where
  "unfold_output_access op t =
     (let i = thread_index t;
          patches_numel = unfold_output_numel op
      in if patches_numel \<le> (ucast i :: size_t) then Some Skip
         else do {
           (b, oc, k1, k2, y, x) \<leftarrow> unfold_output_coords op i;
           r1 \<leftarrow> solve_out y (padding op) k1 (stride op) (h_out op);
           (case r1 of
              Rejected \<Rightarrow> Some Skip
            | Solved oh \<Rightarrow> do {
                r2 \<leftarrow> solve_out x (padding op) k2 (stride op) (w_out op);
                (case r2 of
                   Rejected \<Rightarrow> Some Skip
                 | Solved ow \<Rightarrow>
                     (let image_i = image_out_offset op b oc oh ow
                      in Some (Copy (unat i) (unat image_i))))
              })
         })"

definition unfold_output_into_patches ::
  "Conv2DOp \<Rightarrow> 'a buffer \<Rightarrow> 'a buffer \<Rightarrow> thread \<Rightarrow> 'a buffer option" where
  "unfold_output_into_patches op image_out patches t =
     map_option (apply_access image_out patches) (unfold_output_access op t)"

section \<open>transpose_and_broadcast_filters and sum_transposed_filters\<close>

text \<open>
  Both kernels decompose the thread index into \<open>(k2, k1, c, o)\<close> and compute the offset
  \<open>i_tr\<close> inside one batch slice of the transposed layout with the same statements.
\<close>

definition transposed_offset :: "Conv2DOp \<Rightarrow> uint \<Rightarrow> size_t option" where
  "transposed_offset op i =
     do {
       (k2, idx) \<leftarrow> divmod_idx i (kernel op);
       (k1, idx) \<leftarrow> divmod_idx idx (kernel op);
       (c, idx) \<leftarrow> divmod_idx idx (chan_in op);
       (oc, idx) \<leftarrow> divmod_idx idx (chan_out op);
       Some (c * (chan_out op * kernel op * kernel op) + oc * (kernel op * kernel op)
             + k1 * kernel op + k2)
     }"

text \<open>
  The index expression \<open>b * numel + i_tr\<close> of both batch loops. The counter \<open>b\<close> is
  an \<open>int\<close> that is never negative; it is converted to \<open>size_t\<close> for the product.
\<close>

definition slot :: "size_t \<Rightarrow> size_t \<Rightarrow> int \<Rightarrow> nat" where
  "slot numel i_tr b = unat ((of_int b :: size_t) * numel + i_tr)"

definition INT_MAX :: int where
  "INT_MAX = 2147483647"

text \<open>
  \<open>for (auto b = 0; b < op.batch; b++) { filters_tr[b * numel + i_tr] = f; }\<close>
  The comparison converts \<open>b\<close> to \<open>size_t\<close>. \<open>b++\<close> at \<open>INT_MAX\<close> is a signed
  overflow, which is undefined behaviour: \<open>None\<close>.
\<close>

function broadcast_loop ::
  "size_t \<Rightarrow> size_t \<Rightarrow> size_t \<Rightarrow> 'a \<Rightarrow> int \<Rightarrow> 'a buffer \<Rightarrow> 'a buffer option" where
  "broadcast_loop n_batch numel i_tr f b filters_tr =
     (if (of_int b :: size_t) < n_batch
      then (let filters_tr' = filters_tr(slot numel i_tr b := f)
            in if INT_MAX \<le> b then None
               else broadcast_loop n_batch numel i_tr f (b + 1) filters_tr')
      else Some filters_tr)"
  by pat_completeness auto
termination
  by (relation "measure (\<lambda>(n_batch, numel, i_tr, f, b, filters_tr). nat (INT_MAX - b))") auto

declare broadcast_loop.simps [simp del]

text \<open>\<open>auto numel = op.chan_in * op.chan_out * op.kernel * op.kernel;\<close>\<close>

definition transpose_numel :: "Conv2DOp \<Rightarrow> size_t" where
  "transpose_numel op = chan_in op * chan_out op * kernel op * kernel op"

text \<open>
  The kernel for one thread: the destination buffer after the thread has run, \<open>None\<close> for
  undefined behaviour. \<open>const float f = filters[i];\<close> is read before the loop.
\<close>

definition transpose_and_broadcast_filters ::
  "Conv2DOp \<Rightarrow> 'a buffer \<Rightarrow> 'a buffer \<Rightarrow> thread \<Rightarrow> 'a buffer option" where
  "transpose_and_broadcast_filters op filters filters_tr t =
     (let i = thread_index t;
          numel = transpose_numel op
      in if numel \<le> (ucast i :: size_t) then Some filters_tr
         else do {
           i_tr \<leftarrow> transposed_offset op i;
           let f = filters (unat i);
           broadcast_loop (batch op) numel i_tr f 0 filters_tr
         })"

text \<open>
  \<open>float tmp = 0.0; for (auto b = 0; b < op.batch; b++) { tmp += filters_tr[b * numel + i_tr]; }\<close>
\<close>

function sum_loop ::
  "size_t \<Rightarrow> size_t \<Rightarrow> size_t \<Rightarrow> 'a::plus buffer \<Rightarrow> int \<Rightarrow> 'a \<Rightarrow> 'a option" where
  "sum_loop n_batch numel i_tr filters_tr b tmp =
     (if (of_int b :: size_t) < n_batch
      then (let tmp' = tmp + filters_tr (slot numel i_tr b)
            in if INT_MAX \<le> b then None
               else sum_loop n_batch numel i_tr filters_tr (b + 1) tmp')
      else Some tmp)"
  by pat_completeness auto
termination
  by (relation "measure (\<lambda>(n_batch, numel, i_tr, filters_tr, b, tmp). nat (INT_MAX - b))") auto

declare sum_loop.simps [simp del]

text \<open>\<open>auto numel = op.chan_out * op.chan_in * op.kernel * op.kernel;\<close>\<close>

definition sum_numel :: "Conv2DOp \<Rightarrow> size_t" where
  "sum_numel op = chan_out op * chan_in op * kernel op * kernel op"

text \<open>The kernel for one thread; its last statement is \<open>filters[i] += tmp;\<close>\<close>

definition sum_transposed_filters ::
  "Conv2DOp \<Rightarrow> 'a::{zero,plus} buffer \<Rightarrow> 'a buffer \<Rightarrow> thread \<Rightarrow> 'a buffer option" where
  "sum_transposed_filters op filters_tr filters t =
     (let i = thread_index t;
          numel = sum_numel op
      in if numel \<le> (ucast i :: size_t) then Some filters
         else do {
           i_tr \<leftarrow> transposed_offset op i;
           tmp \<leftarrow> sum_loop (batch op) numel i_tr filters_tr 0 0;
           Some (filters(unat i := filters (unat i) + tmp))
         })"

text \<open>
  The destination offset that the unit with exact index \<open>n\<close> writes in iteration \<open>b\<close> of the
  loop of \<open>transpose_and_broadcast_filters\<close>: the thread holds its index in an
  \<open>unsigned int\<close>, computes \<open>i_tr\<close> from it and writes \<open>filters_tr[b * numel + i_tr]\<close>.
\<close>

definition write_target :: "Conv2DOp \<Rightarrow> nat \<Rightarrow> nat \<Rightarrow> nat option" where
  "write_target op n b =
     map_option (\<lambda>i_tr. slot (transpose_numel op) i_tr (int b))
       (transposed_offset op (of_nat n))"

section \<open>Dispatch\<close>

text \<open>
  Modelled from the spec: the dispatch mechanism, which is not part of the source file.
  It launches a kernel over a collection of threads and completes all of them. No thread
  reads what another thread writes (the source tensor is \<open>const\<close>, and the reducer
  reads and writes only its own destination element), so the threads are run one after
  another, in the order of an arbitrary list.
\<close>

fun launch :: "(thread \<Rightarrow> 'm \<Rightarrow> 'm option) \<Rightarrow> thread list \<Rightarrow> 'm \<Rightarrow> 'm option" where
  "launch k [] m = Some m"
| "launch k (t # ts) m = (case k t m of None \<Rightarrow> None | Some m' \<Rightarrow> launch k ts m')"

section \<open>Tensor shapes in exact arithmetic\<close>

text \<open>
  The declared shapes of the tensors (the comments on the kernels' parameters), with
  element counts and row-major offsets as natural numbers, which do not wrap.
\<close>

definition fwd_patches_numel :: "Conv2DOp \<Rightarrow> nat" where
  "fwd_patches_numel op =
     unat (batch op) * unat (chan_in op) * unat (kernel op) * unat (kernel op)
     * unat (h_out op) * unat (w_out op)"

definition bwd_patches_numel :: "Conv2DOp \<Rightarrow> nat" where
  "bwd_patches_numel op =
     unat (batch op) * unat (chan_out op) * unat (kernel op) * unat (kernel op)
     * unat (h_in op) * unat (w_in op)"

definition image_numel :: "Conv2DOp \<Rightarrow> nat" where
  "image_numel op = unat (batch op) * unat (chan_in op) * unat (h_in op) * unat (w_in op)"

definition image_out_numel :: "Conv2DOp \<Rightarrow> nat" where
  "image_out_numel op = unat (batch op) * unat (chan_out op) * unat (h_out op) * unat (w_out op)"

definition filters_numel :: "Conv2DOp \<Rightarrow> nat" where
  "filters_numel op = unat (chan_out op) * unat (chan_in op) * unat (kernel op) * unat (kernel op)"

definition filters_tr_numel :: "Conv2DOp \<Rightarrow> nat" where
  "filters_tr_numel op = unat (batch op) * filters_numel op"

text \<open>patches, forward: (Batch, Channels, KernelSize, KernelSize, HeightOut, WidthOut)\<close>

definition fwd_flat :: "Conv2DOp \<Rightarrow> nat \<Rightarrow> nat \<Rightarrow> nat \<Rightarrow> nat \<Rightarrow> nat \<Rightarrow> nat \<Rightarrow> nat" where
  "fwd_flat op b c k1 k2 oh ow =
     ((((b * unat (chan_in op) + c) * unat (kernel op) + k1) * unat (kernel op) + k2)
        * unat (h_out op) + oh) * unat (w_out op) + ow"

text \<open>patches, backward: (Batch, ChanOut, KernelSize, KernelSize, HeightIn, WidthIn)\<close>

definition bwd_flat :: "Conv2DOp \<Rightarrow> nat \<Rightarrow> nat \<Rightarrow> nat \<Rightarrow> nat \<Rightarrow> nat \<Rightarrow> nat \<Rightarrow> nat" where
  "bwd_flat op b oc k1 k2 y x =
     ((((b * unat (chan_out op) + oc) * unat (kernel op) + k1) * unat (kernel op) + k2)
        * unat (h_in op) + y) * unat (w_in op) + x"

text \<open>image: (Batch, Channels, Height, Width)\<close>

definition image_at :: "Conv2DOp \<Rightarrow> nat \<Rightarrow> nat \<Rightarrow> nat \<Rightarrow> nat \<Rightarrow> nat" where
  "image_at op b c y x =
     ((b * unat (chan_in op) + c) * unat (h_in op) + y) * unat (w_in op) + x"

text \<open>image_out: (Batch, ChanOut, HeightOut, WidthOut)\<close>

definition image_out_at :: "Conv2DOp \<Rightarrow> nat \<Rightarrow> nat \<Rightarrow> nat \<Rightarrow> nat \<Rightarrow> nat" where
  "image_out_at op b oc oh ow =
     ((b * unat (chan_out op) + oc) * unat (h_out op) + oh) * unat (w_out op) + ow"

text \<open>filters: (ChanOut, ChanIn, KernelSize, KernelSize)\<close>

definition filters_at :: "Conv2DOp \<Rightarrow> nat \<Rightarrow> nat \<Rightarrow> nat \<Rightarrow> nat \<Rightarrow> nat" where
  "filters_at op oc c k1 k2 =
     ((oc * unat (chan_in op) + c) * unat (kernel op) + k1) * unat (kernel op) + k2"

text \<open>filters_tr: (Batch, ChanIn, ChanOut, KernelSize, KernelSize)\<close>

definition filters_tr_at :: "Conv2DOp \<Rightarrow> nat \<Rightarrow> nat \<Rightarrow> nat \<Rightarrow> nat \<Rightarrow> nat \<Rightarrow> nat" where
  "filters_tr_at op b c oc k1 k2 =
     (((b * unat (chan_in op) + c) * unat (chan_out op) + oc) * unat (kernel op) + k1)
       * unat (kernel op) + k2"

text \<open>
  The exact decomposition of a flat index by the forward and the backward patches shape,
  in the order of the shape: the digits of the index in the mixed radix of the dimensions.
\<close>

definition fwd_digits :: "Conv2DOp \<Rightarrow> nat \<Rightarrow> nat \<times> nat \<times> nat \<times> nat \<times> nat \<times> nat" where
  "fwd_digits op n =
     (let n1 = n div unat (w_out op); n2 = n1 div unat (h_out op);
          n3 = n2 div unat (kernel op); n4 = n3 div unat (kernel op);
          n5 = n4 div unat (chan_in op)
      in (n5 mod unat (batch op), n4 mod unat (chan_in op), n3 mod unat (kernel op),
          n2 mod unat (kernel op), n1 mod unat (h_out op), n mod unat (w_out op)))"

definition bwd_digits :: "Conv2DOp \<Rightarrow> nat \<Rightarrow> nat \<times> nat \<times> nat \<times> nat \<times> nat \<times> nat" where
  "bwd_digits op n =
     (let n1 = n div unat (w_in op); n2 = n1 div unat (h_in op);
          n3 = n2 div unat (kernel op); n4 = n3 div unat (kernel op);
          n5 = n4 div unat (chan_out op)
      in (n5 mod unat (batch op), n4 mod unat (chan_out op), n3 mod unat (kernel op),
          n2 mod unat (kernel op), n1 mod unat (h_in op), n mod unat (w_in op)))"

text \<open>The exact decomposition of a flat index by the filter shape, as \<open>(o, c, k1, k2)\<close>.\<close>

definition filter_digits :: "Conv2DOp \<Rightarrow> nat \<Rightarrow> nat \<times> nat \<times> nat \<times> nat" where
  "filter_digits op n =
     (let n1 = n div unat (kernel op); n2 = n1 div unat (kernel op);
          n3 = n2 div unat (chan_in op)
      in (n3 mod unat (chan_out op), n2 mod unat (chan_in op), n1 mod unat (kernel op),
          n mod unat (kernel op)))"

text \<open>
  The exact decomposition of a flat index by the shape of the transposed and broadcast
  filter tensor, as \<open>(b, c, o, k1, k2)\<close>.
\<close>

definition filters_tr_digits :: "Conv2DOp \<Rightarrow> nat \<Rightarrow> nat \<times> nat \<times> nat \<times> nat \<times> nat" where
  "filters_tr_digits op n =
     (let n1 = n div unat (kernel op); n2 = n1 div unat (kernel op);
          n3 = n2 div unat (chan_out op); n4 = n3 div unat (chan_in op)
      in (n4 mod unat (batch op), n3 mod unat (chan_in op), n2 mod unat (chan_out op),
          n1 mod unat (kernel op), n mod unat (kernel op)))"

text \<open>
  Section 4.4 of the specification: the destination element \<open>(b, c, o, k1, k2)\<close> holds the
  filter element \<open>(o, c, k1, k2)\<close>. \<open>transposed_source\<close> is the filter offset that belongs
  to a destination offset, \<open>unit_targets\<close> the destination offsets that belong to the
  filter offset \<open>n\<close>, one in each batch slice.
\<close>

definition transposed_source :: "Conv2DOp \<Rightarrow> nat \<Rightarrow> nat" where
  "transposed_source op d =
     (case filters_tr_digits op d of (b, c, oc, k1, k2) \<Rightarrow> filters_at op oc c k1 k2)"

definition unit_targets :: "Conv2DOp \<Rightarrow> nat \<Rightarrow> nat set" where
  "unit_targets op n =
     (if n < filters_numel op
      then (case filter_digits op n of (oc, c, k1, k2) \<Rightarrow>
              (\<lambda>b. filters_tr_at op b c oc k1 k2) ` {0..<unat (batch op)})
      else {})"

text \<open>The thread index \<open>blockIdx.x * blockDim.x + threadIdx.x\<close> without wrap-around.\<close>

definition exact_index :: "thread \<Rightarrow> nat" where
  "exact_index t = unat (blockIdx_x t) * unat (blockDim_x t) + unat (threadIdx_x t)"

section \<open>The contracts of the extractors in exact arithmetic\<close>

text \<open>
  Section 4.2 of the specification: the source position \<open>y = oh * stride + k1 - padding\<close>
  (and \<open>x\<close> from \<open>ow, k2\<close>) as an integer, which is negative on padding underflow.
\<close>

definition src_coord :: "Conv2DOp \<Rightarrow> nat \<Rightarrow> nat \<Rightarrow> int" where
  "src_coord op oh k1 = int oh * int (unat (stride op)) + int k1 - int (unat (padding op))"

text \<open>
  What section 4.2 prescribes for the patches element at \<open>(b, c, k1, k2, oh, ow)\<close>: it
  receives the image element at \<open>(b, c, y, x)\<close> when \<open>y\<close> is in \<open>[0, h_in)\<close> and \<open>x\<close> is
  in \<open>[0, w_in)\<close>, and is not written otherwise.
\<close>

definition fwd_contract :: "Conv2DOp \<Rightarrow> nat \<Rightarrow> nat \<Rightarrow> nat \<Rightarrow> nat \<Rightarrow> nat \<Rightarrow> nat \<Rightarrow> access" where
  "fwd_contract op b c k1 k2 oh ow =
     (let y = src_coord op oh k1; x = src_coord op ow k2
      in if 0 \<le> y \<and> y < int (unat (h_in op)) \<and> 0 \<le> x \<and> x < int (unat (w_in op))
         then Copy (fwd_flat op b c k1 k2 oh ow) (image_at op b c (nat y) (nat x))
         else Skip)"

text \<open>
  Section 4.3 of the specification: \<open>oh = (y + padding - k1) / stride\<close>, valid only if
  \<open>y + padding \<ge> k1\<close>, the difference is exactly divisible by the stride and the
  quotient is below the output extent.
\<close>

definition out_coord :: "Conv2DOp \<Rightarrow> nat \<Rightarrow> nat \<Rightarrow> nat \<Rightarrow> nat option" where
  "out_coord op y k1 ext =
     (let n = y + unat (padding op)
      in if k1 \<le> n \<and> (n - k1) mod unat (stride op) = 0 \<and> (n - k1) div unat (stride op) < ext
         then Some ((n - k1) div unat (stride op))
         else None)"

definition bwd_contract :: "Conv2DOp \<Rightarrow> nat \<Rightarrow> nat \<Rightarrow> nat \<Rightarrow> nat \<Rightarrow> nat \<Rightarrow> nat \<Rightarrow> access" where
  "bwd_contract op b oc k1 k2 y x =
     (case out_coord op y k1 (unat (h_out op)) of
        None \<Rightarrow> Skip
      | Some oh \<Rightarrow>
          (case out_coord op x k2 (unat (w_out op)) of
             None \<Rightarrow> Skip
           | Some ow \<Rightarrow> Copy (bwd_flat op b oc k1 k2 y x) (image_out_at op b oc oh ow)))"

text \<open>
  Modelled from the spec: the standard convolution output-size formula, which the
  descriptor's \<open>h_out\<close> and \<open>w_out\<close> are required to satisfy and which the source file does
  not contain: \<open>out = (in + 2 * padding - kernel) / stride + 1\<close>, with a stride that is not
  zero and a kernel that fits into the padded input.
\<close>

definition valid_geometry :: "Conv2DOp \<Rightarrow> bool" where
  "valid_geometry op \<longleftrightarrow>
     stride op \<noteq> 0
     \<and> unat (kernel op) \<le> unat (h_in op) + 2 * unat (padding op)
     \<and> unat (kernel op) \<le> unat (w_in op) + 2 * unat (padding op)
     \<and> unat (h_out op)
         = (unat (h_in op) + 2 * unat (padding op) - unat (kernel op)) div unat (stride op) + 1
     \<and> unat (w_out op)
         = (unat (w_in op) + 2 * unat (padding op) - unat (kernel op)) div unat (stride op) + 1"

section \<open>Example geometries\<close>

text \<open>
  The shape of section 8 of the specification: stride 1, no padding, a 3x3 kernel on a
  5x5 image, hence a 3x3 output; one batch element and one channel.
\<close>

definition geom_5x5 :: Conv2DOp where
  "geom_5x5 = \<lparr>stride = 1, padding = 0, kernel = 3, batch = 1, chan_in = 1, chan_out = 1,
                h_in = 5, h_out = 3, w_in = 5, w_out = 3\<rparr>"

text \<open>A 5x5 image with a 3x3 kernel, stride 1 and padding 1: the output is 5x5 as well.\<close>

definition geom_pad1 :: Conv2DOp where
  "geom_pad1 = \<lparr>stride = 1, padding = 1, kernel = 3, batch = 1, chan_in = 1, chan_out = 1,
                 h_in = 5, h_out = 5, w_in = 5, w_out = 5\<rparr>"

text \<open>The thread with the given \<open>threadIdx.x\<close> in block 0 of a launch with blocks of 1024 threads.\<close>

definition thread_no :: "uint \<Rightarrow> thread" where
  "thread_no i = \<lparr>blockIdx_x = 0, blockDim_x = 1024, threadIdx_x = i\<rparr>"

text \<open>
  Extreme but well-formed descriptors. \<open>geom_wrap\<close> has tiny tensors (a 2x2 image, a 2x2
  kernel, a 3x3 output, as the output-size formula gives) with stride and padding
  \<open>2^64 - 1\<close>. \<open>geom_many\<close> has \<open>2^32 + 65536\<close> one-pixel patches. \<open>geom_huge\<close> has
  \<open>2^64\<close> of them. \<open>geom_big_image\<close> has two patches elements and an image of \<open>2^65\<close>
  pixels, \<open>geom_big_output\<close> eight patches elements and an output of \<open>2^65\<close> pixels.
  \<open>geom_stride0\<close> is \<open>geom_5x5\<close> with stride 0.
\<close>

definition geom_wrap :: Conv2DOp where
  "geom_wrap = \<lparr>stride = 18446744073709551615, padding = 18446744073709551615, kernel = 2,
                 batch = 1, chan_in = 1, chan_out = 1, h_in = 2, h_out = 3, w_in = 2, w_out = 3\<rparr>"

definition geom_many :: Conv2DOp where
  "geom_many = \<lparr>stride = 1, padding = 0, kernel = 1, batch = 65537, chan_in = 65536,
                 chan_out = 65536, h_in = 1, h_out = 1, w_in = 1, w_out = 1\<rparr>"

definition geom_huge :: Conv2DOp where
  "geom_huge = \<lparr>stride = 1, padding = 0, kernel = 1, batch = 4294967296, chan_in = 4294967296,
                 chan_out = 4294967296, h_in = 1, h_out = 1, w_in = 1, w_out = 1\<rparr>"

definition geom_big_image :: Conv2DOp where
  "geom_big_image = \<lparr>stride = 4294967296, padding = 0, kernel = 1, batch = 2, chan_in = 1,
                      chan_out = 1, h_in = 4294967296, h_out = 1, w_in = 4294967296, w_out = 1\<rparr>"

definition geom_big_output :: Conv2DOp where
  "geom_big_output = \<lparr>stride = 1, padding = 2147483648, kernel = 2, batch = 2, chan_in = 1,
                       chan_out = 1, h_in = 1, h_out = 4294967296, w_in = 1, w_out = 4294967296\<rparr>"

definition geom_stride0 :: Conv2DOp where
  "geom_stride0 = geom_5x5\<lparr>stride := 0\<rparr>"

text \<open>The thread whose exact index is \<open>2^32\<close>: block \<open>2^22\<close> of blocks of 1024 threads.\<close>

definition thread_2p32 :: thread where
  "thread_2p32 = \<lparr>blockIdx_x = 4194304, blockDim_x = 1024, threadIdx_x = 0\<rparr>"

text \<open>
  Descriptors for the filter kernels: a small one (two batch slices of a 2x2 channel
  matrix of 1x1 kernels), one with \<open>2^31\<close> batch slices, one with \<open>2^32 + 1\<close> input
  channels, and one with \<open>2^63\<close> input channels and three batch slices.
\<close>

definition geom_filters :: Conv2DOp where
  "geom_filters = \<lparr>stride = 1, padding = 0, kernel = 1, batch = 2, chan_in = 2, chan_out = 2,
                    h_in = 1, h_out = 1, w_in = 1, w_out = 1\<rparr>"

definition geom_batch_2p31 :: Conv2DOp where
  "geom_batch_2p31 = \<lparr>stride = 1, padding = 0, kernel = 1, batch = 2147483648, chan_in = 1,
                       chan_out = 1, h_in = 1, h_out = 1, w_in = 1, w_out = 1\<rparr>"

definition geom_wide :: Conv2DOp where
  "geom_wide = \<lparr>stride = 1, padding = 0, kernel = 1, batch = 1, chan_in = 4294967297,
                 chan_out = 1, h_in = 1, h_out = 1, w_in = 1, w_out = 1\<rparr>"

definition geom_deep :: Conv2DOp where
  "geom_deep = \<lparr>stride = 1, padding = 0, kernel = 1, batch = 3, chan_in = 9223372036854775808,
                 chan_out = 1, h_in = 1, h_out = 1, w_in = 1, w_out = 1\<rparr>"

text \<open>Buffers of natural numbers: all zero, all one, and each element its own offset.\<close>

definition zeros :: "nat buffer" where
  "zeros = (\<lambda>n. 0)"

definition ones :: "nat buffer" where
  "ones = (\<lambda>n. 1)"

definition ramp :: "nat buffer" where
  "ramp = (\<lambda>n. n)"

section \<open>Lemmas\<close>

subsection \<open>Word arithmetic and the decomposition chain\<close>

lemma unat_ucast_up: "unat (ucast (w :: uint) :: size_t) = unat w"
  by (simp add: unsigned_ucast_eq take_bit_nat_eq_self_iff) (use unsigned_less[of w, where 'a=nat] in simp)

lemma unat_uint_less: "unat (w :: uint) < 2^64"
  using unsigned_less[of w, where 'a=nat] by simp

lemma word_of_unat: "unat (w :: size_t) = n \<Longrightarrow> w = of_nat n"
  by auto

lemma unat_of_nat_size_t: "n < 2^64 \<Longrightarrow> unat (of_nat n :: size_t) = n"
  by (simp add: unat_of_nat)

lemma unat_mult_le: "unat (a * b :: size_t) \<le> unat a * unat b"
  by (simp add: unat_word_ariths)

lemma unat_add_le: "unat (a + b :: size_t) \<le> unat a + unat b"
  by (simp add: unat_word_ariths)

lemma unat_of_nat_le: "unat (of_nat n :: size_t) \<le> n"
  by (simp add: unat_of_nat)

lemma unat_prod6_le:
  "unat (a * b * c * d * e * f :: size_t) \<le> unat a * unat b * unat c * unat d * unat e * unat f"
  by (meson unat_mult_le mult_le_mono1 order_trans)

lemma divmod_idx_eq:
  assumes "d \<noteq> 0"
  shows "divmod_idx idx d = Some (of_nat (unat idx mod unat d), of_nat (unat idx div unat d))"
proof -
  have a: "(ucast idx :: size_t) div d = of_nat (unat idx div unat d)"
    by (rule word_of_unat) (simp add: unat_div unat_ucast_up)
  have m: "(ucast idx :: size_t) mod d = of_nat (unat idx mod unat d)"
    by (rule word_of_unat) (simp add: unat_mod unat_ucast_up)
  have "unat idx div unat d \<le> unat idx" by simp
  then have lt: "unat idx div unat d < 2^64"
    using unat_uint_less[of idx] by linarith
  have "(ucast (of_nat (unat idx div unat d) :: size_t) :: uint) = of_nat (unat idx div unat d)"
    using lt by (simp add: unsigned_of_nat take_bit_nat_eq_self)
  then show ?thesis using assms by (simp add: divmod_idx_def a m)
qed

lemma div_lt_2p32: "m < 4294967296 \<Longrightarrow> m div d < (4294967296::nat)"
  by (meson div_le_dividend le_less_trans)

lemma divmod_idx_of_nat:
  assumes "d \<noteq> 0" "m < 4294967296"
  shows "divmod_idx (of_nat m) d = Some (of_nat (m mod unat d), of_nat (m div unat d))"
proof -
  have "unat (of_nat m :: uint) = m"
    using assms(2) by (simp add: unat_of_nat)
  then show ?thesis using divmod_idx_eq[OF assms(1), of "of_nat m"] by simp
qed

lemma numel6_nonzero:
  "\<not> a * b * c * d * e * f \<le> (x::size_t) \<Longrightarrow> a \<noteq> 0 \<and> b \<noteq> 0 \<and> c \<noteq> 0 \<and> d \<noteq> 0 \<and> e \<noteq> 0 \<and> f \<noteq> 0"
  by auto

lemma numel4_nonzero:
  "\<not> a * b * c * d \<le> (x::size_t) \<Longrightarrow> a \<noteq> 0 \<and> b \<noteq> 0 \<and> c \<noteq> 0 \<and> d \<noteq> 0"
  by auto

lemma unat_uint_lt: "unat (i :: uint) < 4294967296"
  using unsigned_less[of i, where 'a=nat] by simp

lemma live_lt_numel:
  assumes "\<not> a * b * c * d * e * f \<le> (ucast (i :: uint) :: size_t)"
  shows "unat i < unat a * unat b * unat c * unat d * unat e * unat f"
proof -
  have "unat i < unat (a * b * c * d * e * f)"
    using assms by (simp add: word_le_nat_alt unat_ucast_up)
  then show ?thesis using unat_prod6_le[of a b c d e f] by linarith
qed

subsection \<open>The decomposition computes the exact digits\<close>

lemma unfold_input_coords_closed:
  assumes live: "\<not> unfold_input_numel op \<le> (ucast i :: size_t)"
  shows "unfold_input_coords op i =
     Some (case fwd_digits op (unat i) of (b, c, k1, k2, oh, ow) \<Rightarrow>
             (of_nat b, of_nat c, of_nat k1, of_nat k2, of_nat oh, of_nat ow))"
proof -
  note nz = numel6_nonzero[OF live[unfolded unfold_input_numel_def]]
  define n where "n = unat i"
  have i: "i = of_nat n" by (simp add: n_def)
  have n: "n < 4294967296" unfolding n_def by (rule unat_uint_lt)
  have un: "unat (of_nat n :: uint) = n" using n by (simp add: unat_of_nat)
  show ?thesis
    unfolding unfold_input_coords_def fwd_digits_def Let_def n_def[symmetric]
    unfolding i
    using nz n by (simp add: divmod_idx_of_nat div_lt_2p32 un)
qed

lemma unfold_output_coords_closed:
  assumes live: "\<not> unfold_output_numel op \<le> (ucast i :: size_t)"
  shows "unfold_output_coords op i =
     Some (case bwd_digits op (unat i) of (b, oc, k1, k2, y, x) \<Rightarrow>
             (of_nat b, of_nat oc, of_nat k1, of_nat k2, of_nat y, of_nat x))"
proof -
  note nz = numel6_nonzero[OF live[unfolded unfold_output_numel_def]]
  define n where "n = unat i"
  have i: "i = of_nat n" by (simp add: n_def)
  have n: "n < 4294967296" unfolding n_def by (rule unat_uint_lt)
  have un: "unat (of_nat n :: uint) = n" using n by (simp add: unat_of_nat)
  show ?thesis
    unfolding unfold_output_coords_def bwd_digits_def Let_def n_def[symmetric]
    unfolding i
    using nz n by (simp add: divmod_idx_of_nat div_lt_2p32 un)
qed

subsection \<open>Mixed-radix arithmetic\<close>

lemma radix_lt: "a < A \<Longrightarrow> r < R \<Longrightarrow> a * R + r < A * (R::nat)"
proof -
  assume a: "a < A" and r: "r < R"
  have "a * R + r < a * R + R" using r by simp
  also have "\<dots> = Suc a * R" by simp
  also have "\<dots> \<le> A * R" using a by (intro mult_le_mono1) simp
  finally show ?thesis .
qed

lemma radix4_lt:
  assumes "b < B" "c < C" "y < H" "x < W"
  shows "((b * C + c) * H + y) * W + x < B * C * H * (W::nat)"
  by (intro radix_lt assms)

lemma radix6_lt:
  assumes "b < B" "c < C" "k1 < K" "k2 < K" "oh < H" "ow < W"
  shows "((((b * C + c) * K + k1) * K + k2) * H + oh) * W + ow < B * C * K * K * H * (W::nat)"
  by (intro radix_lt assms)

lemma radix_div: "r < R \<Longrightarrow> (a * R + r) div R = (a::nat)"
  by simp

lemma radix_mod: "r < R \<Longrightarrow> (a * R + r) mod R = (r::nat)"
  by simp

lemma fwd_digits_flat:
  assumes "b < unat (batch op)" "c < unat (chan_in op)" "k1 < unat (kernel op)"
    "k2 < unat (kernel op)" "oh < unat (h_out op)" "ow < unat (w_out op)"
  shows "fwd_digits op (fwd_flat op b c k1 k2 oh ow) = (b, c, k1, k2, oh, ow)"
  using assms by (simp add: fwd_digits_def fwd_flat_def Let_def)

lemma bwd_digits_flat:
  assumes "b < unat (batch op)" "oc < unat (chan_out op)" "k1 < unat (kernel op)"
    "k2 < unat (kernel op)" "y < unat (h_in op)" "x < unat (w_in op)"
  shows "bwd_digits op (bwd_flat op b oc k1 k2 y x) = (b, oc, k1, k2, y, x)"
  using assms by (simp add: bwd_digits_def bwd_flat_def Let_def)

lemma fwd_flat_lt:
  assumes "b < unat (batch op)" "c < unat (chan_in op)" "k1 < unat (kernel op)"
    "k2 < unat (kernel op)" "oh < unat (h_out op)" "ow < unat (w_out op)"
  shows "fwd_flat op b c k1 k2 oh ow < fwd_patches_numel op"
  unfolding fwd_flat_def fwd_patches_numel_def by (rule radix6_lt[OF assms])

lemma bwd_flat_lt:
  assumes "b < unat (batch op)" "oc < unat (chan_out op)" "k1 < unat (kernel op)"
    "k2 < unat (kernel op)" "y < unat (h_in op)" "x < unat (w_in op)"
  shows "bwd_flat op b oc k1 k2 y x < bwd_patches_numel op"
  unfolding bwd_flat_def bwd_patches_numel_def by (rule radix6_lt[OF assms])

subsection \<open>Counts and offsets as images of the exact values\<close>

lemma unfold_input_numel_of_nat: "unfold_input_numel op = of_nat (fwd_patches_numel op)"
  by (simp add: unfold_input_numel_def fwd_patches_numel_def)

lemma unfold_output_numel_of_nat: "unfold_output_numel op = of_nat (bwd_patches_numel op)"
  by (simp add: unfold_output_numel_def bwd_patches_numel_def)

lemma image_offset_of_nat:
  "image_offset op (of_nat b) (of_nat c) (of_nat y) (of_nat x) = of_nat (image_at op b c y x)"
  by (simp add: image_offset_def image_at_def algebra_simps)

lemma image_out_offset_of_nat:
  "image_out_offset op (of_nat b) (of_nat oc) (of_nat oh) (of_nat ow)
     = of_nat (image_out_at op b oc oh ow)"
  by (simp add: image_out_offset_def image_out_at_def algebra_simps)

lemma image_at_lt:
  assumes "b < unat (batch op)" "c < unat (chan_in op)" "y < unat (h_in op)" "x < unat (w_in op)"
  shows "image_at op b c y x < image_numel op"
  unfolding image_at_def image_numel_def by (rule radix4_lt[OF assms])

lemma image_out_at_lt:
  assumes "b < unat (batch op)" "oc < unat (chan_out op)" "oh < unat (h_out op)" "ow < unat (w_out op)"
  shows "image_out_at op b oc oh ow < image_out_numel op"
  unfolding image_out_at_def image_out_numel_def by (rule radix4_lt[OF assms])

subsection \<open>The guards in exact arithmetic\<close>

lemma solve_in_nat:
  assumes "unat oh * unat s + unat k1 < 2^64"
  shows "solve_in oh s k1 p ext =
     (if unat oh * unat s + unat k1 < unat p then Rejected
      else if unat ext \<le> unat oh * unat s + unat k1 - unat p then Rejected
      else Solved (of_nat (unat oh * unat s + unat k1 - unat p)))"
proof -
  define ypp where "ypp = oh * s + k1"
  have "unat oh * unat s < 2^64" using assms by simp
  then have m: "unat (oh * s) = unat oh * unat s"
    using unat_mult_lem[of oh s] by simp
  have ypp: "unat ypp = unat oh * unat s + unat k1"
    unfolding ypp_def using unat_add_lem[of "oh * s" k1] assms m by simp
  show ?thesis
  proof (cases "ypp < p")
    case True
    then show ?thesis
      by (simp add: solve_in_def Let_def ypp_def[symmetric] word_less_nat_alt ypp)
  next
    case False
    then have sub: "unat (ypp - p) = unat oh * unat s + unat k1 - unat p"
      by (simp add: unat_sub word_le_nat_alt not_less ypp)
    have w: "ypp - p = of_nat (unat oh * unat s + unat k1 - unat p)"
      using sub by (rule word_of_unat)
    show ?thesis
      using False w[symmetric] sub
      by (simp add: solve_in_def Let_def ypp_def[symmetric] word_less_nat_alt word_le_nat_alt ypp)
  qed
qed

lemma solve_out_nat:
  assumes "s \<noteq> 0" "unat y + unat p < 2^64"
  shows "solve_out y p k1 s ext = Some
     (if unat y + unat p < unat k1 then Rejected
      else if (unat y + unat p - unat k1) mod unat s \<noteq> 0 then Rejected
      else if unat ext \<le> (unat y + unat p - unat k1) div unat s then Rejected
      else Solved (of_nat ((unat y + unat p - unat k1) div unat s)))"
proof -
  define yp where "yp = y + p"
  have a: "unat yp = unat y + unat p"
    unfolding yp_def using unat_add_lem[of y p] assms by simp
  show ?thesis
  proof (cases "yp < k1")
    case True
    then show ?thesis
      by (simp add: solve_out_def Let_def yp_def[symmetric] word_less_nat_alt a)
  next
    case False
    then have sub: "unat (yp - k1) = unat y + unat p - unat k1"
      by (simp add: unat_sub word_le_nat_alt not_less a)
    have md: "((yp - k1) mod s = 0) = ((unat y + unat p - unat k1) mod unat s = 0)"
      using sub by (metis unat_mod unat_0_iff)
    have dv: "unat ((yp - k1) div s) = (unat y + unat p - unat k1) div unat s"
      using sub by (simp add: unat_div)
    have w: "(yp - k1) div s = of_nat ((unat y + unat p - unat k1) div unat s)"
      using dv by (rule word_of_unat)
    show ?thesis
      using False assms(1) md dv w[symmetric]
      by (simp add: solve_out_def Let_def yp_def[symmetric] word_less_nat_alt word_le_nat_alt a)
  qed
qed

lemma solve_in_Solved: "solve_in oh s k1 p ext = Solved y \<Longrightarrow> unat y < unat ext"
  by (auto simp: solve_in_def Let_def word_less_nat_alt word_le_nat_alt split: if_splits)

lemma solve_out_Solved: "solve_out y p k1 s ext = Some (Solved oh) \<Longrightarrow> unat oh < unat ext"
  by (auto simp: solve_out_def Let_def word_less_nat_alt word_le_nat_alt split: if_splits)

subsection \<open>What a thread of an extractor does\<close>

lemma unfold_input_access_dead:
  "unfold_input_numel op \<le> (ucast (thread_index t) :: size_t)
     \<Longrightarrow> unfold_input_access op t = Some Skip"
  by (simp add: unfold_input_access_def)

lemma unfold_output_access_dead:
  "unfold_output_numel op \<le> (ucast (thread_index t) :: size_t)
     \<Longrightarrow> unfold_output_access op t = Some Skip"
  by (simp add: unfold_output_access_def)

lemma unfold_input_access_live:
  assumes live: "\<not> unfold_input_numel op \<le> (ucast (thread_index t) :: size_t)"
    and dg: "fwd_digits op (unat (thread_index t)) = (b, c, k1, k2, oh, ow)"
  shows "unfold_input_access op t =
     (case solve_in (of_nat oh) (stride op) (of_nat k1) (padding op) (h_in op) of
        Rejected \<Rightarrow> Some Skip
      | Solved y \<Rightarrow>
          (case solve_in (of_nat ow) (stride op) (of_nat k2) (padding op) (w_in op) of
             Rejected \<Rightarrow> Some Skip
           | Solved x \<Rightarrow>
               Some (Copy (unat (thread_index t))
                          (unat (image_offset op (of_nat b) (of_nat c) y x)))))"
  using live by (simp add: unfold_input_access_def unfold_input_coords_closed[OF live] dg Let_def cong: solved.case_cong)

lemma unfold_output_access_live:
  assumes live: "\<not> unfold_output_numel op \<le> (ucast (thread_index t) :: size_t)"
    and dg: "bwd_digits op (unat (thread_index t)) = (b, oc, k1, k2, y, x)"
  shows "unfold_output_access op t =
     (case solve_out (of_nat y) (padding op) (of_nat k1) (stride op) (h_out op) of
        None \<Rightarrow> None
      | Some Rejected \<Rightarrow> Some Skip
      | Some (Solved oh) \<Rightarrow>
          (case solve_out (of_nat x) (padding op) (of_nat k2) (stride op) (w_out op) of
             None \<Rightarrow> None
           | Some Rejected \<Rightarrow> Some Skip
           | Some (Solved ow) \<Rightarrow>
               Some (Copy (unat (thread_index t))
                          (unat (image_out_offset op (of_nat b) (of_nat oc) oh ow)))))"
  using live
  by (simp add: unfold_output_access_def unfold_output_coords_closed[OF live] dg Let_def
      split: option.split solved.split)

lemma digit_lt: "d \<noteq> 0 \<Longrightarrow> m mod unat (d :: size_t) < unat d"
  by (simp add: unat_gt_0)

lemma unat_of_nat_digit: "d \<noteq> 0 \<Longrightarrow> unat (of_nat (m mod unat d) :: size_t) = m mod unat (d :: size_t)"
proof -
  assume "d \<noteq> 0"
  then have "m mod unat d < unat d" by (rule digit_lt)
  also have "unat d < 2^64" using unsigned_less[of d, where 'a=nat] by simp
  finally show ?thesis by (simp add: unat_of_nat)
qed

lemma offset4_le:
  "unat (b * (C * H * W) + c * (H * W) + y * W + x :: size_t)
     \<le> ((unat b * unat C + unat c) * unat H + unat y) * unat W + unat x"
proof -
  have 1: "unat (b * (C * H * W)) \<le> unat b * (unat C * unat H * unat W)"
    by (meson unat_mult_le mult_le_mono mult_le_mono1 mult_le_mono2 order_trans order_refl)
  have 2: "unat (c * (H * W)) \<le> unat c * (unat H * unat W)"
    by (meson unat_mult_le mult_le_mono2 order_trans)
  have 3: "unat (y * W) \<le> unat y * unat W" by (rule unat_mult_le)
  have "unat (b * (C * H * W) + c * (H * W) + y * W + x)
        \<le> unat (b * (C * H * W)) + unat (c * (H * W)) + unat (y * W) + unat x"
    by (meson unat_add_le add_le_mono1 order_trans)
  also have "\<dots> \<le> unat b * (unat C * unat H * unat W) + unat c * (unat H * unat W) + unat y * unat W + unat x"
    using 1 2 3 by linarith
  also have "\<dots> = ((unat b * unat C + unat c) * unat H + unat y) * unat W + unat x"
    by (simp add: algebra_simps)
  finally show ?thesis .
qed

lemma unfold_input_access_Copy:
  assumes "unfold_input_access op t = Some (Copy d s)"
  shows "d = unat (thread_index t) \<and> d < fwd_patches_numel op \<and> s < image_numel op"
proof -
  have live: "\<not> unfold_input_numel op \<le> (ucast (thread_index t) :: size_t)"
    using assms unfold_input_access_dead[of op t] by auto
  note nz = numel6_nonzero[OF live[unfolded unfold_input_numel_def]]
  obtain b c k1 k2 oh ow where dg: "fwd_digits op (unat (thread_index t)) = (b, c, k1, k2, oh, ow)"
    by (metis prod_cases6)
  have b: "b = unat (thread_index t) div unat (w_out op) div unat (h_out op) div unat (kernel op)
                 div unat (kernel op) div unat (chan_in op) mod unat (batch op)"
    and c: "c = unat (thread_index t) div unat (w_out op) div unat (h_out op) div unat (kernel op)
                 div unat (kernel op) mod unat (chan_in op)"
    using dg by (simp_all add: fwd_digits_def Let_def)
  from assms obtain y x where
    y: "solve_in (of_nat oh) (stride op) (of_nat k1) (padding op) (h_in op) = Solved y" and
    x: "solve_in (of_nat ow) (stride op) (of_nat k2) (padding op) (w_in op) = Solved x" and
    d: "d = unat (thread_index t)" and
    s: "s = unat (image_offset op (of_nat b) (of_nat c) y x)"
    unfolding unfold_input_access_live[OF live dg]
    by (auto split: solved.splits)
  have bB: "unat (of_nat b :: size_t) < unat (batch op)"
    unfolding b using nz by (simp add: unat_of_nat_digit digit_lt)
  have cC: "unat (of_nat c :: size_t) < unat (chan_in op)"
    unfolding c using nz by (simp add: unat_of_nat_digit digit_lt)
  have "s \<le> ((unat (of_nat b :: size_t) * unat (chan_in op) + unat (of_nat c :: size_t))
               * unat (h_in op) + unat y) * unat (w_in op) + unat x"
    unfolding s image_offset_def by (rule offset4_le)
  also have "\<dots> < image_numel op"
    unfolding image_numel_def
    by (rule radix4_lt[OF bB cC solve_in_Solved[OF y] solve_in_Solved[OF x]])
  finally have "s < image_numel op" .
  moreover have "d < fwd_patches_numel op"
    unfolding d fwd_patches_numel_def
    by (rule live_lt_numel[OF live[unfolded unfold_input_numel_def]])
  ultimately show ?thesis using d by simp
qed

lemma unfold_output_access_Copy:
  assumes "unfold_output_access op t = Some (Copy d s)"
  shows "d = unat (thread_index t) \<and> d < bwd_patches_numel op \<and> s < image_out_numel op"
proof -
  have live: "\<not> unfold_output_numel op \<le> (ucast (thread_index t) :: size_t)"
    using assms unfold_output_access_dead[of op t] by auto
  note nz = numel6_nonzero[OF live[unfolded unfold_output_numel_def]]
  obtain b oc k1 k2 y x where dg: "bwd_digits op (unat (thread_index t)) = (b, oc, k1, k2, y, x)"
    by (metis prod_cases6)
  have b: "b = unat (thread_index t) div unat (w_in op) div unat (h_in op) div unat (kernel op)
                 div unat (kernel op) div unat (chan_out op) mod unat (batch op)"
    and c: "oc = unat (thread_index t) div unat (w_in op) div unat (h_in op) div unat (kernel op)
                 div unat (kernel op) mod unat (chan_out op)"
    using dg by (simp_all add: bwd_digits_def Let_def)
  from assms obtain oh ow where
    y: "solve_out (of_nat y) (padding op) (of_nat k1) (stride op) (h_out op) = Some (Solved oh)" and
    x: "solve_out (of_nat x) (padding op) (of_nat k2) (stride op) (w_out op) = Some (Solved ow)" and
    d: "d = unat (thread_index t)" and
    s: "s = unat (image_out_offset op (of_nat b) (of_nat oc) oh ow)"
    unfolding unfold_output_access_live[OF live dg]
    by (auto split: solved.splits option.splits)
  have bB: "unat (of_nat b :: size_t) < unat (batch op)"
    unfolding b using nz by (simp add: unat_of_nat_digit digit_lt)
  have cC: "unat (of_nat oc :: size_t) < unat (chan_out op)"
    unfolding c using nz by (simp add: unat_of_nat_digit digit_lt)
  have "s \<le> ((unat (of_nat b :: size_t) * unat (chan_out op) + unat (of_nat oc :: size_t))
               * unat (h_out op) + unat oh) * unat (w_out op) + unat ow"
    unfolding s image_out_offset_def by (rule offset4_le)
  also have "\<dots> < image_out_numel op"
    unfolding image_out_numel_def
    by (rule radix4_lt[OF bB cC solve_out_Solved[OF y] solve_out_Solved[OF x]])
  finally have "s < image_out_numel op" .
  moreover have "d < bwd_patches_numel op"
    unfolding d bwd_patches_numel_def
    by (rule live_lt_numel[OF live[unfolded unfold_output_numel_def]])
  ultimately show ?thesis using d by simp
qed

lemma size_t_lt: "unat (w :: size_t) < 2^64"
  using unsigned_less[of w, where 'a=nat] by simp

lemma thread_index_exact:
  assumes "exact_index t < 2^32"
  shows "unat (thread_index t) = exact_index t"
proof -
  have "thread_index t = of_nat (exact_index t)"
    by (simp add: thread_index_def exact_index_def)
  then show ?thesis using assms by (simp add: unat_of_nat)
qed

lemma int_diff_range:
  "(0 \<le> int a - int p \<and> int a - int p < int e) = (\<not> a < p \<and> \<not> e \<le> a - p)"
  by auto

lemma solve_in_src_coord:
  assumes "oh * unat (stride op) + k1 < 2^64"
    and oh: "oh < 2^64" and k1: "k1 < 2^64"
  shows "solve_in (of_nat oh) (stride op) (of_nat k1) (padding op) ext =
     (if 0 \<le> src_coord op oh k1 \<and> src_coord op oh k1 < int (unat ext)
      then Solved (of_nat (nat (src_coord op oh k1))) else Rejected)"
proof -
  define P where "P = unat (padding op)"
  define E where "E = unat ext"
  define A where "A = oh * unat (stride op) + k1"
  have u: "unat (of_nat oh :: size_t) = oh" "unat (of_nat k1 :: size_t) = k1"
    using oh k1 by (simp_all add: unat_of_nat)
  have sc: "src_coord op oh k1 = int A - int P"
    unfolding src_coord_def A_def P_def by (simp only: of_nat_add of_nat_mult)
  have n: "nat (int A - int P) = A - P" by simp
  have "unat (of_nat oh :: size_t) * unat (stride op) + unat (of_nat k1 :: size_t) < 2^64"
    using assms(1) u by simp
  from solve_in_nat[OF this, of "padding op" ext]
  have "solve_in (of_nat oh) (stride op) (of_nat k1) (padding op) ext =
     (if A < P then Rejected else if E \<le> A - P then Rejected else Solved (of_nat (A - P)))"
    unfolding u A_def P_def E_def .
  then show ?thesis
    unfolding sc E_def[symmetric] int_diff_range n by simp
qed

lemma live_iff:
  assumes "N < 2^64" "(numel :: size_t) = of_nat N"
  shows "(\<not> numel \<le> (ucast (i :: uint) :: size_t)) = (unat i < N)"
  using assms by (simp add: word_le_nat_alt unat_ucast_up unat_of_nat not_le)

lemma unfold_input_access_contract:
  assumes inr: "b < unat (batch op)" "c < unat (chan_in op)" "k1 < unat (kernel op)"
      "k2 < unat (kernel op)" "oh < unat (h_out op)" "ow < unat (w_out op)"
    and repr: "fwd_patches_numel op < 2^64" "image_numel op < 2^64"
    and idx: "unat (thread_index t) = fwd_flat op b c k1 k2 oh ow"
    and nowrap: "oh * unat (stride op) + k1 < 2^64" "ow * unat (stride op) + k2 < 2^64"
  shows "unfold_input_access op t = Some (fwd_contract op b c k1 k2 oh ow)"
proof -
  have live: "\<not> unfold_input_numel op \<le> (ucast (thread_index t) :: size_t)"
    using live_iff[OF repr(1) unfold_input_numel_of_nat, of "thread_index t"]
      fwd_flat_lt[OF inr] idx by simp
  have dg: "fwd_digits op (unat (thread_index t)) = (b, c, k1, k2, oh, ow)"
    unfolding idx by (rule fwd_digits_flat[OF inr])
  have lt: "oh < 2^64" "ow < 2^64" "k1 < 2^64" "k2 < 2^64"
    using inr size_t_lt[of "h_out op"] size_t_lt[of "w_out op"] size_t_lt[of "kernel op"]
    by linarith+
  note gy = solve_in_src_coord[OF nowrap(1) lt(1) lt(3), of "h_in op"]
  note gx = solve_in_src_coord[OF nowrap(2) lt(2) lt(4), of "w_in op"]
  show ?thesis
  proof (cases "0 \<le> src_coord op oh k1 \<and> src_coord op oh k1 < int (unat (h_in op))
              \<and> 0 \<le> src_coord op ow k2 \<and> src_coord op ow k2 < int (unat (w_in op))")
    case False
    then show ?thesis
      unfolding unfold_input_access_live[OF live dg] gy gx
      by (auto simp: fwd_contract_def Let_def)
  next
    case True
    define y where "y = nat (src_coord op oh k1)"
    define x where "x = nat (src_coord op ow k2)"
    have yx: "y < unat (h_in op)" "x < unat (w_in op)"
      using True unfolding y_def x_def by linarith+
    have "image_at op b c y x < image_numel op"
      by (rule image_at_lt[OF inr(1,2) yx])
    then have off: "unat (of_nat (image_at op b c y x) :: size_t) = image_at op b c y x"
      using repr(2) by (simp add: unat_of_nat)
    have gy': "solve_in (of_nat oh) (stride op) (of_nat k1) (padding op) (h_in op) = Solved (of_nat y)"
      unfolding gy y_def using True by (simp only: simp_thms if_True)
    have gx': "solve_in (of_nat ow) (stride op) (of_nat k2) (padding op) (w_in op) = Solved (of_nat x)"
      unfolding gx x_def using True by (simp only: simp_thms if_True)
    have fc: "fwd_contract op b c k1 k2 oh ow
                = Copy (fwd_flat op b c k1 k2 oh ow) (image_at op b c y x)"
      unfolding fwd_contract_def Let_def y_def x_def using True by (simp only: simp_thms if_True)
    show ?thesis
      unfolding unfold_input_access_live[OF live dg] gy' gx' fc
      by (simp add: image_offset_of_nat off idx)
  qed
qed

lemma solve_out_out_coord:
  assumes "stride op \<noteq> 0" "y + unat (padding op) < 2^64"
    and y: "y < 2^64" and k1: "k1 < 2^64"
  shows "solve_out (of_nat y) (padding op) (of_nat k1) (stride op) ext =
     Some (case out_coord op y k1 (unat ext) of None \<Rightarrow> Rejected | Some oh \<Rightarrow> Solved (of_nat oh))"
proof -
  have u: "unat (of_nat y :: size_t) = y" "unat (of_nat k1 :: size_t) = k1"
    using y k1 by (simp_all add: unat_of_nat)
  have "unat (of_nat y :: size_t) + unat (padding op) < 2^64"
    using assms(2) u by simp
  from solve_out_nat[OF assms(1) this, of "of_nat k1" ext]
  show ?thesis
    unfolding u by (auto simp: out_coord_def Let_def)
qed

lemma out_coord_lt: "out_coord op y k1 ext = Some oh \<Longrightarrow> oh < ext"
  by (auto simp: out_coord_def Let_def split: if_splits)

lemma unfold_output_access_contract:
  assumes inr: "b < unat (batch op)" "oc < unat (chan_out op)" "k1 < unat (kernel op)"
      "k2 < unat (kernel op)" "y < unat (h_in op)" "x < unat (w_in op)"
    and repr: "bwd_patches_numel op < 2^64" "image_out_numel op < 2^64"
    and idx: "unat (thread_index t) = bwd_flat op b oc k1 k2 y x"
    and nz: "stride op \<noteq> 0"
    and nowrap: "y + unat (padding op) < 2^64" "x + unat (padding op) < 2^64"
  shows "unfold_output_access op t = Some (bwd_contract op b oc k1 k2 y x)"
proof -
  have live: "\<not> unfold_output_numel op \<le> (ucast (thread_index t) :: size_t)"
    using live_iff[OF repr(1) unfold_output_numel_of_nat, of "thread_index t"]
      bwd_flat_lt[OF inr] idx by simp
  have dg: "bwd_digits op (unat (thread_index t)) = (b, oc, k1, k2, y, x)"
    unfolding idx by (rule bwd_digits_flat[OF inr])
  have lt: "y < 2^64" "x < 2^64" "k1 < 2^64" "k2 < 2^64"
    using inr size_t_lt[of "h_in op"] size_t_lt[of "w_in op"] size_t_lt[of "kernel op"]
    by linarith+
  note gy = solve_out_out_coord[OF nz nowrap(1) lt(1) lt(3), of "h_out op"]
  note gx = solve_out_out_coord[OF nz nowrap(2) lt(2) lt(4), of "w_out op"]
  show ?thesis
  proof (cases "out_coord op y k1 (unat (h_out op))")
    case None
    then show ?thesis
      unfolding unfold_output_access_live[OF live dg] gy gx
      by (simp add: bwd_contract_def)
  next
    case (Some oh)
    note oh = this
    show ?thesis
    proof (cases "out_coord op x k2 (unat (w_out op))")
      case None
      then show ?thesis
        unfolding unfold_output_access_live[OF live dg] gy gx
        by (simp add: bwd_contract_def oh)
    next
      case (Some ow)
      have "image_out_at op b oc oh ow < image_out_numel op"
        by (rule image_out_at_lt[OF inr(1,2) out_coord_lt[OF oh] out_coord_lt[OF Some]])
      then have off: "unat (of_nat (image_out_at op b oc oh ow) :: size_t) = image_out_at op b oc oh ow"
        using repr(2) by (simp add: unat_of_nat)
      show ?thesis
        unfolding unfold_output_access_live[OF live dg] gy gx
        using off by (simp add: bwd_contract_def oh Some image_out_offset_of_nat idx)
    qed
  qed
qed

lemma apply_access_simps:
  "apply_access src dst Skip = dst"
  "apply_access src dst (Copy d s) = dst(d := src s)"
  by (simp_all add: apply_access_def)

subsection \<open>The guards of the two extractors are inverse to each other\<close>

lemma duality_1d:
  assumes s: "s \<noteq> 0" and nw: "unat oh * unat s + unat k1 < 2^64" and oh: "oh < ext_out"
    and fw: "solve_in oh s k1 p ext_in = Solved y"
  shows "solve_out y p k1 s ext_out = Some (Solved oh)
       \<and> int (unat y) = int (unat oh) * int (unat s) + int (unat k1) - int (unat p)"
proof -
  define A where "A = unat oh * unat s + unat k1"
  have A: "A < 2^64" using nw by (simp add: A_def)
  from fw solve_in_nat[OF nw, of p ext_in]
  have ge: "\<not> A < unat p" and y: "y = of_nat (A - unat p)"
    unfolding A_def by (auto split: if_splits)
  have uy: "unat y = A - unat p"
    unfolding y using A by (simp add: unat_of_nat)
  have sum: "unat y + unat p = A" using uy ge by simp
  have S: "0 < unat s" using s by (simp add: unat_gt_0)
  have nw': "unat y + unat p < 2^64" using sum A by simp
  have d: "unat y + unat p - unat k1 = unat oh * unat s"
    unfolding sum A_def by simp
  have "solve_out y p k1 s ext_out = Some (Solved (of_nat (unat oh)))"
    unfolding solve_out_nat[OF s nw'] d
    using S oh sum by (simp add: A_def word_less_nat_alt)
  moreover have "int (unat y) = int (unat oh) * int (unat s) + int (unat k1) - int (unat p)"
    unfolding uy A_def using ge[unfolded A_def] by simp
  ultimately show ?thesis by simp
qed

lemma valid_nowrap:
  assumes out: "OUT = (IN + 2 * P - K) div S + 1" and fit: "K \<le> IN + 2 * P"
    and S: "0 < (S::nat)" and oh: "oh < OUT" and k1: "k1 < K" and bound: "IN + 2 * P \<le> M"
  shows "oh * S + k1 < M"
proof -
  have "oh \<le> (IN + 2 * P - K) div S" using oh out by simp
  then have "oh * S \<le> (IN + 2 * P - K) div S * S" by (rule mult_le_mono1)
  also have "\<dots> \<le> IN + 2 * P - K" by (rule div_times_less_eq_dividend)
  finally have "oh * S + k1 < IN + 2 * P - K + K" using k1 by linarith
  then show ?thesis using fit bound by simp
qed

subsection \<open>Elements that a launch leaves alone\<close>

lemma launch_preserves:
  assumes "\<And>t m. \<exists>m'. k t m = Some m' \<and> m' e = m e"
  shows "\<exists>m'. launch k ts m = Some m' \<and> m' e = m e"
proof (induction ts arbitrary: m)
  case Nil
  show ?case by simp
next
  case (Cons t ts)
  from assms[of t m] obtain m1 where m1: "k t m = Some m1" "m1 e = m e" by blast
  from Cons.IH[of m1] obtain m2 where "launch k ts m1 = Some m2" "m2 e = m1 e" by blast
  then show ?case using m1 by simp
qed

lemma unfold_input_access_defined: "unfold_input_access op t \<noteq> None"
proof (cases "unfold_input_numel op \<le> (ucast (thread_index t) :: size_t)")
  case True
  then show ?thesis by (simp add: unfold_input_access_dead)
next
  case False
  obtain b c k1 k2 oh ow where dg: "fwd_digits op (unat (thread_index t)) = (b, c, k1, k2, oh, ow)"
    by (metis prod_cases6)
  show ?thesis
    unfolding unfold_input_access_live[OF False dg]
    by (simp split: solved.split)
qed

lemma solve_in_origin: "p \<noteq> 0 \<Longrightarrow> solve_in 0 s 0 p ext = Rejected"
  by (simp add: solve_in_def word_neq_0_conv)

lemma unfold_input_access_border:
  assumes p: "padding op \<noteq> 0"
    and inr: "b < unat (batch op)" "c < unat (chan_in op)" "k2 < unat (kernel op)"
      "0 < unat (h_out op)" "ow < unat (w_out op)"
    and i: "unat (thread_index t) = fwd_flat op b c 0 k2 0 ow"
  shows "unfold_input_access op t = Some Skip"
proof (cases "unfold_input_numel op \<le> (ucast (thread_index t) :: size_t)")
  case True
  then show ?thesis by (simp add: unfold_input_access_dead)
next
  case False
  have k: "0 < unat (kernel op)" using inr(3) by simp
  have dg: "fwd_digits op (unat (thread_index t)) = (b, c, 0, k2, 0, ow)"
    unfolding i by (rule fwd_digits_flat[OF inr(1,2) k inr(3,4,5)])
  show ?thesis
    unfolding unfold_input_access_live[OF False dg]
    using p by (simp add: solve_in_origin)
qed

lemma unfold_input_keeps_border:
  assumes p: "padding op \<noteq> 0"
    and inr: "b < unat (batch op)" "c < unat (chan_in op)" "k2 < unat (kernel op)"
      "0 < unat (h_out op)" "ow < unat (w_out op)"
  shows "\<exists>p'. unfold_input_into_patches op img patches t = Some p'
              \<and> p' (fwd_flat op b c 0 k2 0 ow) = patches (fwd_flat op b c 0 k2 0 ow)"
proof (cases "unfold_input_access op t")
  case None
  then show ?thesis using unfold_input_access_defined[of op t] by simp
next
  case (Some a)
  show ?thesis
  proof (cases a)
    case Skip
    then show ?thesis using Some by (simp add: unfold_input_into_patches_def apply_access_simps)
  next
    case (Copy d s)
    have "d \<noteq> fwd_flat op b c 0 k2 0 ow"
    proof
      assume "d = fwd_flat op b c 0 k2 0 ow"
      then have "unat (thread_index t) = fwd_flat op b c 0 k2 0 ow"
        using unfold_input_access_Copy[of op t d s] Some Copy by simp
      from unfold_input_access_border[OF p inr this] Some Copy show False by simp
    qed
    then show ?thesis using Some Copy by (simp add: unfold_input_into_patches_def apply_access_simps)
  qed
qed

lemma unfold_input_coords_exact:
  assumes repr: "fwd_patches_numel op < 2^64" and i: "unat i < fwd_patches_numel op"
  shows "\<exists>b c k1 k2 oh ow. unfold_input_coords op i = Some (b, c, k1, k2, oh, ow)
           \<and> (unat b, unat c, unat k1, unat k2, unat oh, unat ow) = fwd_digits op (unat i)"
proof -
  have live: "\<not> unfold_input_numel op \<le> (ucast i :: size_t)"
    using live_iff[OF repr unfold_input_numel_of_nat, of i] i by simp
  note nz = numel6_nonzero[OF live[unfolded unfold_input_numel_def]]
  show ?thesis
    unfolding unfold_input_coords_closed[OF live]
    using nz by (simp add: fwd_digits_def Let_def unat_of_nat_digit)
qed

lemma unfold_output_coords_exact:
  assumes repr: "bwd_patches_numel op < 2^64" and i: "unat i < bwd_patches_numel op"
  shows "\<exists>b oc k1 k2 y x. unfold_output_coords op i = Some (b, oc, k1, k2, y, x)
           \<and> (unat b, unat oc, unat k1, unat k2, unat y, unat x) = bwd_digits op (unat i)"
proof -
  have live: "\<not> unfold_output_numel op \<le> (ucast i :: size_t)"
    using live_iff[OF repr unfold_output_numel_of_nat, of i] i by simp
  note nz = numel6_nonzero[OF live[unfolded unfold_output_numel_def]]
  show ?thesis
    unfolding unfold_output_coords_closed[OF live]
    using nz by (simp add: bwd_digits_def Let_def unat_of_nat_digit)
qed

lemma image_offset_exact:
  assumes "image_numel op < 2^64" "unat b < unat (batch op)" "unat c < unat (chan_in op)"
    "unat y < unat (h_in op)" "unat x < unat (w_in op)"
  shows "unat (image_offset op b c y x) = image_at op (unat b) (unat c) (unat y) (unat x)"
proof -
  have "image_at op (unat b) (unat c) (unat y) (unat x) < 2^64"
    using image_at_lt[OF assms(2-5)] assms(1) by linarith
  then show ?thesis
    using image_offset_of_nat[of op "unat b" "unat c" "unat y" "unat x"]
    by (simp add: unat_of_nat)
qed

lemma image_out_offset_exact:
  assumes "image_out_numel op < 2^64" "unat b < unat (batch op)" "unat oc < unat (chan_out op)"
    "unat oh < unat (h_out op)" "unat ow < unat (w_out op)"
  shows "unat (image_out_offset op b oc oh ow)
           = image_out_at op (unat b) (unat oc) (unat oh) (unat ow)"
proof -
  have "image_out_at op (unat b) (unat oc) (unat oh) (unat ow) < 2^64"
    using image_out_at_lt[OF assms(2-5)] assms(1) by linarith
  then show ?thesis
    using image_out_offset_of_nat[of op "unat b" "unat oc" "unat oh" "unat ow"]
    by (simp add: unat_of_nat)
qed

lemma of_int_less_iff:
  assumes "0 \<le> b" "b < 2147483648"
  shows "((of_int b :: size_t) < w) = (nat b < unat w)"
proof -
  have "b mod 18446744073709551616 = b" using assms by simp
  then have "uint (of_int b :: size_t) = b" by (simp add: uint_word_of_int take_bit_eq_mod)
  then have "unat (of_int b :: size_t) = nat b" by (simp add: unat_eq_nat_uint)
  then show ?thesis by (simp add: word_less_nat_alt)
qed

lemma broadcast_loop_eq:
  assumes "unat n_batch < 2147483648" "0 \<le> b" "nat b \<le> unat n_batch"
  shows "broadcast_loop n_batch numel i_tr f b dst =
     Some (\<lambda>d. if d \<in> (\<lambda>b'. slot numel i_tr (int b')) ` {nat b..<unat n_batch} then f else dst d)"
  using assms
proof (induction n_batch numel i_tr f b dst rule: broadcast_loop.induct)
  case (1 n_batch numel i_tr f b dst)
  have b31: "b < 2147483648" using 1(2-4) by linarith
  show ?case
  proof (cases "nat b < unat n_batch")
    case False
    then have "\<not> (of_int b :: size_t) < n_batch" using of_int_less_iff[OF 1(3) b31] by simp
    moreover have "{nat b..<unat n_batch} = {}" using False by simp
    ultimately show ?thesis by (subst broadcast_loop.simps) simp
  next
    case True
    then have lt: "(of_int b :: size_t) < n_batch" using of_int_less_iff[OF 1(3) b31] by simp
    have nmax: "\<not> INT_MAX \<le> b" using True 1(2) by (simp add: INT_MAX_def)
    have nb: "nat (b + 1) = Suc (nat b)" using 1(3) by simp
    have IH: "broadcast_loop n_batch numel i_tr f (b + 1) (dst(slot numel i_tr b := f)) =
      Some (\<lambda>d. if d \<in> (\<lambda>b'. slot numel i_tr (int b')) ` {nat (b + 1)..<unat n_batch} then f
                 else (dst(slot numel i_tr b := f)) d)"
      using 1(1)[OF lt refl nmax 1(2)] 1(3) True by (simp add: fun_upd_def)
    have split: "{nat b..<unat n_batch} = insert (nat b) {Suc (nat b)..<unat n_batch}"
      using True by auto
    have ib: "int (nat b) = b" using 1(3) by simp
    have fn: "(\<lambda>d. if d \<in> (\<lambda>b'. slot numel i_tr (int b')) ` {Suc (nat b)..<unat n_batch} then f
                   else (dst(slot numel i_tr b := f)) d)
              = (\<lambda>d. if d \<in> (\<lambda>b'. slot numel i_tr (int b')) ` {nat b..<unat n_batch} then f
                     else dst d)"
    proof (rule ext)
      fix d
      have "(\<lambda>b'. slot numel i_tr (int b')) ` {nat b..<unat n_batch}
            = insert (slot numel i_tr b) ((\<lambda>b'. slot numel i_tr (int b')) ` {Suc (nat b)..<unat n_batch})"
        by (subst split) (simp only: image_insert ib)
      then show "(if d \<in> (\<lambda>b'. slot numel i_tr (int b')) ` {Suc (nat b)..<unat n_batch} then f
                   else (dst(slot numel i_tr b := f)) d)
              = (if d \<in> (\<lambda>b'. slot numel i_tr (int b')) ` {nat b..<unat n_batch} then f
                     else dst d)"
        by simp
    qed
    show ?thesis
      by (subst broadcast_loop.simps) (simp only: lt nmax IH Let_def nb fn if_True if_False)
  qed
qed

lemma broadcast_loop_overflow:
  assumes "2147483648 \<le> unat n_batch" "0 \<le> b" "b \<le> INT_MAX"
  shows "broadcast_loop n_batch numel i_tr f b dst = None"
  using assms
proof (induction n_batch numel i_tr f b dst rule: broadcast_loop.induct)
  case (1 n_batch numel i_tr f b dst)
  have b31: "b < 2147483648" using 1(4) by (simp add: INT_MAX_def)
  have lt: "(of_int b :: size_t) < n_batch"
    using of_int_less_iff[OF 1(3) b31, of n_batch] 1(2) b31 by (simp add: nat_less_iff)
  show ?case
  proof (cases "INT_MAX \<le> b")
    case True
    then show ?thesis by (subst broadcast_loop.simps) (simp add: lt Let_def)
  next
    case False
    have "broadcast_loop n_batch numel i_tr f (b + 1) (dst(slot numel i_tr b := f)) = None"
      using 1(1)[OF lt refl False 1(2)] 1(3) False by (simp add: fun_upd_def)
    then show ?thesis by (subst broadcast_loop.simps) (simp add: lt Let_def False)
  qed
qed

lemma sum_loop_eq:
  assumes "unat n_batch < 2147483648" "0 \<le> b" "nat b \<le> unat n_batch"
  shows "sum_loop n_batch numel i_tr src b tmp =
     Some (foldl (+) tmp (map (\<lambda>b'. src (slot numel i_tr (int b'))) [nat b..<unat n_batch]))"
  using assms
proof (induction n_batch numel i_tr src b tmp rule: sum_loop.induct)
  case (1 n_batch numel i_tr src b tmp)
  have b31: "b < 2147483648" using 1(2-4) by linarith
  show ?case
  proof (cases "nat b < unat n_batch")
    case False
    then have "\<not> (of_int b :: size_t) < n_batch" using of_int_less_iff[OF 1(3) b31] by simp
    then show ?thesis using False by (subst sum_loop.simps) simp
  next
    case True
    then have lt: "(of_int b :: size_t) < n_batch" using of_int_less_iff[OF 1(3) b31] by simp
    have nmax: "\<not> INT_MAX \<le> b" using True 1(2) by (simp add: INT_MAX_def)
    have nb: "nat (b + 1) = Suc (nat b)" using 1(3) by simp
    have IH: "sum_loop n_batch numel i_tr src (b + 1) (tmp + src (slot numel i_tr b)) =
      Some (foldl (+) (tmp + src (slot numel i_tr b))
              (map (\<lambda>b'. src (slot numel i_tr (int b'))) [nat (b + 1)..<unat n_batch]))"
      using 1(1)[OF lt refl nmax 1(2)] 1(3) True by (simp add: fun_upd_def)
    have ib: "int (nat b) = b" using 1(3) by simp
    show ?thesis
      using 1(3) by (subst sum_loop.simps) (simp add: lt nmax IH Let_def nb upt_conv_Cons[OF True] ib)
  qed
qed

lemma sum_loop_overflow:
  assumes "2147483648 \<le> unat n_batch" "0 \<le> b" "b \<le> INT_MAX"
  shows "sum_loop n_batch numel i_tr src b tmp = None"
  using assms
proof (induction n_batch numel i_tr src b tmp rule: sum_loop.induct)
  case (1 n_batch numel i_tr src b tmp)
  have b31: "b < 2147483648" using 1(4) by (simp add: INT_MAX_def)
  have lt: "(of_int b :: size_t) < n_batch"
    using of_int_less_iff[OF 1(3) b31, of n_batch] 1(2) b31 by (simp add: nat_less_iff)
  show ?case
  proof (cases "INT_MAX \<le> b")
    case True
    then show ?thesis by (subst sum_loop.simps) (simp add: lt Let_def)
  next
    case False
    have "sum_loop n_batch numel i_tr src (b + 1) (tmp + src (slot numel i_tr b)) = None"
      using 1(1)[OF lt refl False 1(2)] 1(3) False by (simp add: fun_upd_def)
    then show ?thesis by (subst sum_loop.simps) (simp add: lt Let_def False)
  qed
qed

lemma solve_out_defined: "strd \<noteq> 0 \<Longrightarrow> solve_out y pad k1 strd ext \<noteq> None"
  by (simp add: solve_out_def Let_def)

lemma unfold_output_access_defined:
  assumes "stride op \<noteq> 0"
  shows "unfold_output_access op t \<noteq> None"
proof (cases "unfold_output_numel op \<le> (ucast (thread_index t) :: size_t)")
  case True
  then show ?thesis by (simp add: unfold_output_access_dead)
next
  case False
  obtain b oc k1 k2 y x where dg: "bwd_digits op (unat (thread_index t)) = (b, oc, k1, k2, y, x)"
    by (metis prod_cases6)
  show ?thesis
    unfolding unfold_output_access_live[OF False dg]
    using solve_out_defined[OF assms, of "of_nat y" "padding op" "of_nat k1" "h_out op"]
      solve_out_defined[OF assms, of "of_nat x" "padding op" "of_nat k2" "w_out op"]
    by (auto split: option.split solved.split)
qed

subsection \<open>Digits of the filter shapes\<close>

lemma filter_digits_at:
  assumes "oc < unat (chan_out op)" "c < unat (chan_in op)" "k1 < unat (kernel op)"
    "k2 < unat (kernel op)"
  shows "filter_digits op (filters_at op oc c k1 k2) = (oc, c, k1, k2)"
  using assms by (simp add: filter_digits_def filters_at_def Let_def)

lemma filters_at_lt:
  assumes "oc < unat (chan_out op)" "c < unat (chan_in op)" "k1 < unat (kernel op)"
    "k2 < unat (kernel op)"
  shows "filters_at op oc c k1 k2 < filters_numel op"
  unfolding filters_at_def filters_numel_def by (intro radix_lt assms)

lemma filters_tr_digits_at:
  assumes "b < unat (batch op)" "c < unat (chan_in op)" "oc < unat (chan_out op)"
    "k1 < unat (kernel op)" "k2 < unat (kernel op)"
  shows "filters_tr_digits op (filters_tr_at op b c oc k1 k2) = (b, c, oc, k1, k2)"
  using assms by (simp add: filters_tr_digits_def filters_tr_at_def Let_def)

lemma filters_tr_at_lt:
  assumes "b < unat (batch op)" "c < unat (chan_in op)" "oc < unat (chan_out op)"
    "k1 < unat (kernel op)" "k2 < unat (kernel op)"
  shows "filters_tr_at op b c oc k1 k2 < filters_tr_numel op"
proof -
  have "filters_tr_at op b c oc k1 k2
        < unat (batch op) * unat (chan_in op) * unat (chan_out op) * unat (kernel op) * unat (kernel op)"
    unfolding filters_tr_at_def by (intro radix_lt assms)
  then show ?thesis by (simp add: filters_tr_numel_def filters_numel_def mult_ac)
qed

lemma radix_recompose:
  assumes "n < A * (R::nat)"
  shows "n div R < A \<and> n mod R < R \<and> (n div R) * R + n mod R = n"
proof -
  have R: "0 < R" using assms by (cases R) auto
  have "n div R < A" using assms by (simp add: less_mult_imp_div_less)
  then show ?thesis using R by simp
qed

lemma filters_at_digits:
  assumes n: "n < filters_numel op" and dg: "filter_digits op n = (oc, c, k1, k2)"
  shows "oc < unat (chan_out op) \<and> c < unat (chan_in op) \<and> k1 < unat (kernel op)
       \<and> k2 < unat (kernel op) \<and> filters_at op oc c k1 k2 = n"
proof -
  define K where "K = unat (kernel op)"
  define Ci where "Ci = unat (chan_in op)"
  define Co where "Co = unat (chan_out op)"
  have n0: "n < (Co * Ci * K) * K" using n by (simp add: filters_numel_def K_def Ci_def Co_def mult_ac)
  note r0 = radix_recompose[OF n0]
  have n1: "n div K < (Co * Ci) * K" using r0 by simp
  note r1 = radix_recompose[OF n1]
  have n2: "n div K div K < Co * Ci" using r1 by simp
  note r2 = radix_recompose[OF n2]
  have o: "n div K div K div Ci mod Co = n div K div K div Ci" using r2 by simp
  have d: "oc = n div K div K div Ci" "c = n div K div K mod Ci" "k1 = n div K mod K" "k2 = n mod K"
    using dg o by (simp_all add: filter_digits_def Let_def K_def Ci_def Co_def)
  have "((oc * Ci + c) * K + k1) * K + k2 = n"
    unfolding d using r0 r1 r2 by simp
  then show ?thesis
    using r0 r1 r2 d by (simp add: filters_at_def K_def Ci_def Co_def)
qed

lemma filters_tr_at_digits:
  assumes n: "n < filters_tr_numel op" and dg: "filters_tr_digits op n = (b, c, oc, k1, k2)"
  shows "b < unat (batch op) \<and> c < unat (chan_in op) \<and> oc < unat (chan_out op)
       \<and> k1 < unat (kernel op) \<and> k2 < unat (kernel op) \<and> filters_tr_at op b c oc k1 k2 = n"
proof -
  define K where "K = unat (kernel op)"
  define Ci where "Ci = unat (chan_in op)"
  define Co where "Co = unat (chan_out op)"
  define B where "B = unat (batch op)"
  have n0: "n < (B * Ci * Co * K) * K"
    using n by (simp add: filters_tr_numel_def filters_numel_def K_def Ci_def Co_def B_def mult_ac)
  note r0 = radix_recompose[OF n0]
  have n1: "n div K < (B * Ci * Co) * K" using r0 by simp
  note r1 = radix_recompose[OF n1]
  have n2: "n div K div K < (B * Ci) * Co" using r1 by simp
  note r2 = radix_recompose[OF n2]
  have n3: "n div K div K div Co < B * Ci" using r2 by simp
  note r3 = radix_recompose[OF n3]
  have o: "n div K div K div Co div Ci mod B = n div K div K div Co div Ci" using r3 by simp
  have d: "b = n div K div K div Co div Ci" "c = n div K div K div Co mod Ci"
    "oc = n div K div K mod Co" "k1 = n div K mod K" "k2 = n mod K"
    using dg o by (simp_all add: filters_tr_digits_def Let_def K_def Ci_def Co_def B_def)
  have "(((b * Ci + c) * Co + oc) * K + k1) * K + k2 = n"
    unfolding d using r0 r1 r2 r3 by simp
  then show ?thesis
    using r0 r1 r2 r3 d by (simp add: filters_tr_at_def K_def Ci_def Co_def B_def)
qed

subsection \<open>The offset inside one batch slice\<close>

lemma filters_tr_at_slot:
  "filters_tr_at op b c oc k1 k2 = b * filters_numel op + filters_tr_at op 0 c oc k1 k2"
  by (simp add: filters_tr_at_def filters_numel_def algebra_simps)

lemma transposed_offset_closed:
  assumes live: "\<not> transpose_numel op \<le> (ucast i :: size_t)"
    and dg: "filter_digits op (unat i) = (oc, c, k1, k2)"
  shows "transposed_offset op i = Some (of_nat (filters_tr_at op 0 c oc k1 k2))"
proof -
  note nz = numel4_nonzero[OF live[unfolded transpose_numel_def]]
  define n where "n = unat i"
  have i: "i = of_nat n" by (simp add: n_def)
  have n: "n < 4294967296" unfolding n_def by (rule unat_uint_lt)
  have d: "oc = n div unat (kernel op) div unat (kernel op) div unat (chan_in op) mod unat (chan_out op)"
    "c = n div unat (kernel op) div unat (kernel op) mod unat (chan_in op)"
    "k1 = n div unat (kernel op) mod unat (kernel op)" "k2 = n mod unat (kernel op)"
    using dg by (simp_all add: filter_digits_def Let_def n_def)
  show ?thesis
    unfolding transposed_offset_def i
    using nz n by (simp add: divmod_idx_of_nat div_lt_2p32 d filters_tr_at_def algebra_simps)
qed

lemma transpose_numel_of_nat: "transpose_numel op = of_nat (filters_numel op)"
  by (simp add: transpose_numel_def filters_numel_def mult_ac)

lemma sum_numel_eq: "sum_numel op = transpose_numel op"
  by (simp add: sum_numel_def transpose_numel_def mult_ac)

lemma slot_exact:
  assumes "b * N + r < 2^64"
  shows "slot (of_nat N) (of_nat r) (int b) = b * N + r"
proof -
  have "(of_int (int b) :: size_t) * of_nat N + of_nat r = of_nat (b * N + r)" by simp
  then show ?thesis unfolding slot_def using assms by (simp only: unat_of_nat_size_t)
qed

subsection \<open>What a thread of a filter kernel does\<close>

lemma filters_tr_at0_lt:
  assumes "oc < unat (chan_out op)" "c < unat (chan_in op)" "k1 < unat (kernel op)"
    "k2 < unat (kernel op)"
  shows "filters_tr_at op 0 c oc k1 k2 < filters_numel op"
proof -
  have "filters_tr_at op 0 c oc k1 k2
        < unat (chan_in op) * unat (chan_out op) * unat (kernel op) * unat (kernel op)"
    unfolding filters_tr_at_def using assms by (simp only: mult_0 add_0) (intro radix_lt assms)
  then show ?thesis by (simp add: filters_numel_def mult_ac)
qed

lemma slot_filters_tr_at:
  assumes R: "filters_tr_numel op \<le> 2^64"
    and inr: "oc < unat (chan_out op)" "c < unat (chan_in op)" "k1 < unat (kernel op)"
      "k2 < unat (kernel op)"
    and b: "b < unat (batch op)"
  shows "slot (transpose_numel op) (of_nat (filters_tr_at op 0 c oc k1 k2)) (int b)
           = filters_tr_at op b c oc k1 k2"
proof -
  have "filters_tr_at op b c oc k1 k2 < filters_tr_numel op"
    by (rule filters_tr_at_lt[OF b inr(2,1,3,4)])
  then have "b * filters_numel op + filters_tr_at op 0 c oc k1 k2 < 2^64"
    using R filters_tr_at_slot[of op b c oc k1 k2] by linarith
  from slot_exact[OF this] show ?thesis
    by (simp add: transpose_numel_of_nat filters_tr_at_slot[of op b c oc k1 k2])
qed

lemma filter_live:
  assumes N: "filters_numel op < 2^64"
  shows "(\<not> transpose_numel op \<le> (ucast (i :: uint) :: size_t)) = (unat i < filters_numel op)"
  by (rule live_iff[OF N transpose_numel_of_nat])

lemma transpose_thread_live:
  assumes B: "unat (batch op) < 2147483648" and R: "filters_tr_numel op \<le> 2^64"
    and N: "filters_numel op < 2^64"
    and n: "unat (thread_index t) < filters_numel op"
    and dg: "filter_digits op (unat (thread_index t)) = (oc, c, k1, k2)"
  shows "transpose_and_broadcast_filters op filters dst t =
     Some (\<lambda>d. if d \<in> (\<lambda>b. filters_tr_at op b c oc k1 k2) ` {0..<unat (batch op)}
                then filters (unat (thread_index t)) else dst d)"
proof -
  have live: "\<not> transpose_numel op \<le> (ucast (thread_index t) :: size_t)"
    using filter_live[OF N] n by simp
  note inr = filters_at_digits[OF n dg]
  have img: "(\<lambda>b'. slot (transpose_numel op) (of_nat (filters_tr_at op 0 c oc k1 k2)) (int b'))
               ` {0..<unat (batch op)}
             = (\<lambda>b. filters_tr_at op b c oc k1 k2) ` {0..<unat (batch op)}"
    by (rule image_cong[OF refl]) (use inr R in \<open>simp add: slot_filters_tr_at\<close>)
  have "broadcast_loop (batch op) (transpose_numel op) (of_nat (filters_tr_at op 0 c oc k1 k2))
          (filters (unat (thread_index t))) 0 dst
        = Some (\<lambda>d. if d \<in> (\<lambda>b. filters_tr_at op b c oc k1 k2) ` {0..<unat (batch op)}
                then filters (unat (thread_index t)) else dst d)"
    using broadcast_loop_eq[OF B, of 0 "transpose_numel op"
        "of_nat (filters_tr_at op 0 c oc k1 k2)" "filters (unat (thread_index t))" dst]
    by (simp add: img)
  then show ?thesis
    using live
    by (simp add: transpose_and_broadcast_filters_def transposed_offset_closed[OF live dg] Let_def)
qed

lemma transpose_thread_dead:
  assumes N: "filters_numel op < 2^64" and n: "\<not> unat (thread_index t) < filters_numel op"
  shows "transpose_and_broadcast_filters op filters dst t = Some dst"
  using filter_live[OF N, of "thread_index t"] n
  by (simp add: transpose_and_broadcast_filters_def)

lemma sum_thread_live:
  assumes B: "unat (batch op) < 2147483648" and R: "filters_tr_numel op \<le> 2^64"
    and N: "filters_numel op < 2^64"
    and n: "unat (thread_index t) < filters_numel op"
    and dg: "filter_digits op (unat (thread_index t)) = (oc, c, k1, k2)"
  shows "sum_transposed_filters op filters_tr filters t =
     Some (filters(unat (thread_index t) := filters (unat (thread_index t))
             + foldl (+) 0 (map (\<lambda>b. filters_tr (filters_tr_at op b c oc k1 k2))
                                [0..<unat (batch op)])))"
proof -
  have live: "\<not> transpose_numel op \<le> (ucast (thread_index t) :: size_t)"
    using filter_live[OF N] n by simp
  note inr = filters_at_digits[OF n dg]
  have mp: "map (\<lambda>b'. filters_tr (slot (transpose_numel op)
                (of_nat (filters_tr_at op 0 c oc k1 k2)) (int b'))) [0..<unat (batch op)]
            = map (\<lambda>b. filters_tr (filters_tr_at op b c oc k1 k2)) [0..<unat (batch op)]"
    by (rule map_cong[OF refl]) (use inr R in \<open>simp add: slot_filters_tr_at\<close>)
  have "sum_loop (batch op) (transpose_numel op) (of_nat (filters_tr_at op 0 c oc k1 k2))
          filters_tr 0 0
        = Some (foldl (+) 0 (map (\<lambda>b. filters_tr (filters_tr_at op b c oc k1 k2))
                                [0..<unat (batch op)]))"
    using sum_loop_eq[OF B, of 0 "transpose_numel op"
        "of_nat (filters_tr_at op 0 c oc k1 k2)" filters_tr 0]
    by (simp add: mp)
  then show ?thesis
    using live
    by (simp add: sum_transposed_filters_def sum_numel_eq transposed_offset_closed[OF live dg] Let_def)
qed

lemma sum_thread_dead:
  assumes N: "filters_numel op < 2^64" and n: "\<not> unat (thread_index t) < filters_numel op"
  shows "sum_transposed_filters op filters_tr filters t = Some filters"
  using filter_live[OF N, of "thread_index t"] n
  by (simp add: sum_transposed_filters_def sum_numel_eq)

subsection \<open>Launches\<close>

lemma launch_writes:
  assumes "\<And>t m. k t m = Some (\<lambda>d. if d \<in> W t then V d else m d)"
  shows "launch k ts m = Some (\<lambda>d. if d \<in> (\<Union>t\<in>set ts. W t) then V d else m d)"
proof (induction ts arbitrary: m)
  case Nil
  show ?case by simp
next
  case (Cons t ts)
  have "launch k (t # ts) m = launch k ts (\<lambda>d. if d \<in> W t then V d else m d)"
    by (simp add: assms)
  also have "\<dots> = Some (\<lambda>d. if d \<in> (\<Union>t\<in>set ts. W t) then V d
                           else (if d \<in> W t then V d else m d))"
    by (rule Cons.IH)
  also have "\<dots> = Some (\<lambda>d. if d \<in> (\<Union>t\<in>set (t # ts). W t) then V d else m d)"
    by (rule arg_cong[where f = Some], rule ext) auto
  finally show ?case .
qed

lemma filters_tr_numel_fits:
  assumes B: "unat (batch op) < 2147483648" and N: "filters_numel op \<le> 4294967296"
  shows "filters_tr_numel op \<le> 2^64" "filters_numel op < 2^64"
proof -
  have "unat (batch op) * filters_numel op \<le> 2147483648 * 4294967296"
    using B N by (intro mult_le_mono) simp_all
  then show "filters_tr_numel op \<le> 2^64" by (simp add: filters_tr_numel_def)
  show "filters_numel op < 2^64" using N by simp
qed

lemma transposed_source_at:
  assumes "b < unat (batch op)" "c < unat (chan_in op)" "oc < unat (chan_out op)"
    "k1 < unat (kernel op)" "k2 < unat (kernel op)"
  shows "transposed_source op (filters_tr_at op b c oc k1 k2) = filters_at op oc c k1 k2"
  by (simp add: transposed_source_def filters_tr_digits_at[OF assms])

lemma transpose_thread_effect:
  assumes B: "unat (batch op) < 2147483648" and N: "filters_numel op \<le> 4294967296"
  shows "transpose_and_broadcast_filters op filters dst t =
     Some (\<lambda>d. if d \<in> unit_targets op (unat (thread_index t))
                then filters (transposed_source op d) else dst d)"
proof (cases "unat (thread_index t) < filters_numel op")
  case False
  then show ?thesis
    using transpose_thread_dead[OF filters_tr_numel_fits(2)[OF B N] False]
    by (simp add: unit_targets_def)
next
  case True
  obtain oc c k1 k2 where dg: "filter_digits op (unat (thread_index t)) = (oc, c, k1, k2)"
    by (metis prod_cases4)
  note inr = filters_at_digits[OF True dg]
  have ut: "unit_targets op (unat (thread_index t))
              = (\<lambda>b. filters_tr_at op b c oc k1 k2) ` {0..<unat (batch op)}"
    using True by (simp add: unit_targets_def dg)
  have "(\<lambda>d. if d \<in> (\<lambda>b. filters_tr_at op b c oc k1 k2) ` {0..<unat (batch op)}
             then filters (unat (thread_index t)) else dst d)
        = (\<lambda>d. if d \<in> (\<lambda>b. filters_tr_at op b c oc k1 k2) ` {0..<unat (batch op)}
             then filters (transposed_source op d) else dst d)"
  proof (rule ext)
    fix d
    show "(if d \<in> (\<lambda>b. filters_tr_at op b c oc k1 k2) ` {0..<unat (batch op)}
             then filters (unat (thread_index t)) else dst d)
        = (if d \<in> (\<lambda>b. filters_tr_at op b c oc k1 k2) ` {0..<unat (batch op)}
             then filters (transposed_source op d) else dst d)"
    proof (cases "d \<in> (\<lambda>b. filters_tr_at op b c oc k1 k2) ` {0..<unat (batch op)}")
      case False
      then show ?thesis by simp
    next
      case True
      then obtain b where b: "b < unat (batch op)" "d = filters_tr_at op b c oc k1 k2" by auto
      have "transposed_source op d = unat (thread_index t)"
        unfolding b(2) using transposed_source_at[of b op c oc k1 k2] b(1) inr by simp
      then show ?thesis by simp
    qed
  qed
  then show ?thesis
    unfolding ut
    using transpose_thread_live[OF B filters_tr_numel_fits[OF B N] True dg, of filters dst]
    by simp
qed

lemma unit_targets_cover:
  assumes cover: "\<forall>n<filters_numel op. \<exists>t\<in>set ts. unat (thread_index t) = n"
  shows "(\<Union>t\<in>set ts. unit_targets op (unat (thread_index t))) = {..<filters_tr_numel op}"
proof (rule set_eqI)
  fix d
  show "(d \<in> (\<Union>t\<in>set ts. unit_targets op (unat (thread_index t)))) = (d \<in> {..<filters_tr_numel op})"
  proof
    assume "d \<in> (\<Union>t\<in>set ts. unit_targets op (unat (thread_index t)))"
    then obtain t where t: "d \<in> unit_targets op (unat (thread_index t))" by blast
    then have n: "unat (thread_index t) < filters_numel op"
      by (auto simp: unit_targets_def split: if_splits)
    obtain oc c k1 k2 where dg: "filter_digits op (unat (thread_index t)) = (oc, c, k1, k2)"
      by (metis prod_cases4)
    note inr = filters_at_digits[OF n dg]
    from t n obtain b where b: "b < unat (batch op)" "d = filters_tr_at op b c oc k1 k2"
      by (auto simp: unit_targets_def dg)
    show "d \<in> {..<filters_tr_numel op}"
      unfolding b(2) using filters_tr_at_lt[of b op c oc k1 k2] b(1) inr by simp
  next
    assume "d \<in> {..<filters_tr_numel op}"
    then have d: "d < filters_tr_numel op" by simp
    obtain b c oc k1 k2 where dg: "filters_tr_digits op d = (b, c, oc, k1, k2)"
      by (metis prod_cases5)
    note inr = filters_tr_at_digits[OF d dg]
    define n where "n = filters_at op oc c k1 k2"
    have n: "n < filters_numel op"
      unfolding n_def using filters_at_lt[of oc op c k1 k2] inr by simp
    have fd: "filter_digits op n = (oc, c, k1, k2)"
      unfolding n_def using filter_digits_at[of oc op c k1 k2] inr by simp
    from cover n obtain t where t: "t \<in> set ts" "unat (thread_index t) = n" by blast
    have "d \<in> unit_targets op n"
      using n inr by (auto simp: unit_targets_def fd)
    then show "d \<in> (\<Union>t\<in>set ts. unit_targets op (unat (thread_index t)))"
      using t by auto
  qed
qed

lemma transpose_launch:
  assumes B: "unat (batch op) < 2147483648" and N: "filters_numel op \<le> 4294967296"
    and cover: "\<forall>n<filters_numel op. \<exists>t\<in>set ts. unat (thread_index t) = n"
  shows "launch (\<lambda>t m. transpose_and_broadcast_filters op filters m t) ts dst =
     Some (\<lambda>d. if d < filters_tr_numel op then filters (transposed_source op d) else dst d)"
proof -
  have "launch (\<lambda>t m. transpose_and_broadcast_filters op filters m t) ts dst =
     Some (\<lambda>d. if d \<in> (\<Union>t\<in>set ts. unit_targets op (unat (thread_index t)))
                then filters (transposed_source op d) else dst d)"
    by (rule launch_writes) (rule transpose_thread_effect[OF B N])
  then show ?thesis unfolding unit_targets_cover[OF cover] by simp
qed

lemma cover_exact:
  assumes N: "filters_numel op \<le> 4294967296"
    and cover: "\<forall>n<filters_numel op. \<exists>t\<in>set ts. exact_index t = n"
  shows "\<forall>n<filters_numel op. \<exists>t\<in>set ts. unat (thread_index t) = n"
proof (intro allI impI)
  fix n assume n: "n < filters_numel op"
  with cover obtain t where t: "t \<in> set ts" "exact_index t = n" by blast
  have "exact_index t < 2^32" using t(2) n N by simp
  from thread_index_exact[OF this] t show "\<exists>t\<in>set ts. unat (thread_index t) = n" by auto
qed

lemma write_target_eq:
  assumes B: "unat (batch op) < 2147483648" and N: "filters_numel op \<le> 4294967296"
    and n: "n < filters_numel op" and b: "b < unat (batch op)"
    and dg: "filter_digits op n = (oc, c, k1, k2)"
  shows "write_target op n b = Some (filters_tr_at op b c oc k1 k2)"
proof -
  have un: "unat (of_nat n :: uint) = n" using n N by (simp add: unat_of_nat)
  have live: "\<not> transpose_numel op \<le> (ucast (of_nat n :: uint) :: size_t)"
    using filter_live[OF filters_tr_numel_fits(2)[OF B N], of "of_nat n"] n un by simp
  have dg': "filter_digits op (unat (of_nat n :: uint)) = (oc, c, k1, k2)"
    using dg un by simp
  note inr = filters_at_digits[OF n dg]
  show ?thesis
    unfolding write_target_def transposed_offset_closed[OF live dg']
    using slot_filters_tr_at[OF filters_tr_numel_fits(1)[OF B N], of oc c k1 k2 b] inr b
    by simp
qed

lemma write_target_bij:
  assumes B: "unat (batch op) < 2147483648" and N: "filters_numel op \<le> 4294967296"
  shows "bij_betw (\<lambda>(n, b). the (write_target op n b))
           ({..<filters_numel op} \<times> {..<unat (batch op)}) {..<filters_tr_numel op}"
proof (rule bij_betw_byWitness[where f' = "\<lambda>d. (transposed_source op d, fst (filters_tr_digits op d))"])
  show "\<forall>a\<in>{..<filters_numel op} \<times> {..<unat (batch op)}.
          (transposed_source op ((\<lambda>(n, b). the (write_target op n b)) a),
           fst (filters_tr_digits op ((\<lambda>(n, b). the (write_target op n b)) a))) = a"
  proof
    fix a assume a: "a \<in> {..<filters_numel op} \<times> {..<unat (batch op)}"
    obtain n b where ab: "a = (n, b)" by (cases a)
    have n: "n < filters_numel op" and b: "b < unat (batch op)" using a ab by auto
    obtain oc c k1 k2 where dg: "filter_digits op n = (oc, c, k1, k2)" by (metis prod_cases4)
    note inr = filters_at_digits[OF n dg]
    have td: "filters_tr_digits op (filters_tr_at op b c oc k1 k2) = (b, c, oc, k1, k2)"
      using filters_tr_digits_at[of b op c oc k1 k2] b inr by simp
    show "(transposed_source op ((\<lambda>(n, b). the (write_target op n b)) a),
           fst (filters_tr_digits op ((\<lambda>(n, b). the (write_target op n b)) a))) = a"
      unfolding ab using inr by (simp add: write_target_eq[OF B N n b dg] transposed_source_def td)
  qed
next
  show "\<forall>d\<in>{..<filters_tr_numel op}.
          (\<lambda>(n, b). the (write_target op n b))
            (transposed_source op d, fst (filters_tr_digits op d)) = d"
  proof
    fix d assume "d \<in> {..<filters_tr_numel op}"
    then have d: "d < filters_tr_numel op" by simp
    obtain b c oc k1 k2 where dg: "filters_tr_digits op d = (b, c, oc, k1, k2)"
      by (metis prod_cases5)
    note inr = filters_tr_at_digits[OF d dg]
    have n: "filters_at op oc c k1 k2 < filters_numel op"
      using filters_at_lt[of oc op c k1 k2] inr by simp
    have fd: "filter_digits op (filters_at op oc c k1 k2) = (oc, c, k1, k2)"
      using filter_digits_at[of oc op c k1 k2] inr by simp
    have b: "b < unat (batch op)" using inr by simp
    show "(\<lambda>(n, b). the (write_target op n b))
            (transposed_source op d, fst (filters_tr_digits op d)) = d"
      using inr by (simp add: transposed_source_def dg write_target_eq[OF B N n b fd])
  qed
next
  show "(\<lambda>(n, b). the (write_target op n b)) ` ({..<filters_numel op} \<times> {..<unat (batch op)})
          \<subseteq> {..<filters_tr_numel op}"
  proof
    fix d assume "d \<in> (\<lambda>(n, b). the (write_target op n b)) ` ({..<filters_numel op} \<times> {..<unat (batch op)})"
    then obtain n b where n: "n < filters_numel op" and b: "b < unat (batch op)"
      and d: "d = the (write_target op n b)" by auto
    obtain oc c k1 k2 where dg: "filter_digits op n = (oc, c, k1, k2)" by (metis prod_cases4)
    note inr = filters_at_digits[OF n dg]
    show "d \<in> {..<filters_tr_numel op}"
      unfolding d write_target_eq[OF B N n b dg]
      using filters_tr_at_lt[of b op c oc k1 k2] b inr by simp
  qed
next
  show "(\<lambda>d. (transposed_source op d, fst (filters_tr_digits op d))) ` {..<filters_tr_numel op}
          \<subseteq> {..<filters_numel op} \<times> {..<unat (batch op)}"
  proof
    fix a assume "a \<in> (\<lambda>d. (transposed_source op d, fst (filters_tr_digits op d))) ` {..<filters_tr_numel op}"
    then obtain d where d: "d < filters_tr_numel op"
      and a: "a = (transposed_source op d, fst (filters_tr_digits op d))" by auto
    obtain b c oc k1 k2 where dg: "filters_tr_digits op d = (b, c, oc, k1, k2)"
      by (metis prod_cases5)
    note inr = filters_tr_at_digits[OF d dg]
    have n: "filters_at op oc c k1 k2 < filters_numel op"
      using filters_at_lt[of oc op c k1 k2] inr by simp
    show "a \<in> {..<filters_numel op} \<times> {..<unat (batch op)}"
      unfolding a using n inr by (simp add: transposed_source_def dg)
  qed
qed

lemma transpose_thread_targets:
  assumes B: "unat (batch op) < 2147483648" and N: "filters_numel op \<le> 4294967296"
    and n: "unat (thread_index t) < filters_numel op"
  shows "transpose_and_broadcast_filters op filters dst t =
     Some (\<lambda>d. if d \<in> (\<lambda>b. the (write_target op (unat (thread_index t)) b)) ` {..<unat (batch op)}
                then filters (unat (thread_index t)) else dst d)"
proof -
  obtain oc c k1 k2 where dg: "filter_digits op (unat (thread_index t)) = (oc, c, k1, k2)"
    by (metis prod_cases4)
  have img: "(\<lambda>b. the (write_target op (unat (thread_index t)) b)) ` {..<unat (batch op)}
             = (\<lambda>b. filters_tr_at op b c oc k1 k2) ` {0..<unat (batch op)}"
    unfolding atLeast0LessThan
    by (rule image_cong[OF refl]) (simp add: write_target_eq[OF B N n _ dg])
  show ?thesis
    unfolding img
    by (rule transpose_thread_live[OF B filters_tr_numel_fits[OF B N] n dg])
qed

lemma transposed_offset_0:
  "kernel op = 1 \<Longrightarrow> chan_in op \<noteq> 0 \<Longrightarrow> chan_out op \<noteq> 0 \<Longrightarrow> transposed_offset op 0 = Some 0"
  by (simp add: transposed_offset_def divmod_idx_def)

subsection \<open>Launches of the reducer\<close>

lemma launch_adds:
  fixes S :: "nat \<Rightarrow> 'a::{zero,plus}"
  assumes k: "\<And>t m. k t m = Some (if I t < N then m(I t := m (I t) + S (I t)) else m)"
    and d: "distinct (map I ts)"
  shows "launch k ts m = Some (\<lambda>d. if d < N \<and> d \<in> I ` set ts then m d + S d else m d)"
  using d
proof (induction ts arbitrary: m)
  case Nil
  show ?case by simp
next
  case (Cons t ts)
  have nt: "I t \<notin> I ` set ts" and dt: "distinct (map I ts)" using Cons.prems by auto
  define m' where "m' = (if I t < N then m(I t := m (I t) + S (I t)) else m)"
  have "launch k (t # ts) m = launch k ts m'" by (simp add: k m'_def)
  also have "\<dots> = Some (\<lambda>d. if d < N \<and> d \<in> I ` set ts then m' d + S d else m' d)"
    by (rule Cons.IH[OF dt])
  also have "\<dots> = Some (\<lambda>d. if d < N \<and> d \<in> I ` set (t # ts) then m d + S d else m d)"
  proof (rule arg_cong[where f = Some], rule ext)
    fix d
    show "(if d < N \<and> d \<in> I ` set ts then m' d + S d else m' d)
        = (if d < N \<and> d \<in> I ` set (t # ts) then m d + S d else m d)"
      using nt by (auto simp add: m'_def)
  qed
  finally show ?case .
qed

lemma distinct_thread_index:
  assumes "distinct (map thread_index ts)"
  shows "distinct (map (\<lambda>t. unat (thread_index t)) ts)"
proof -
  have "inj_on (unat :: uint \<Rightarrow> nat) (set (map thread_index ts))"
    by (rule inj_onI) (simp add: word_unat_eq_iff)
  then have "distinct (map unat (map thread_index ts))"
    using assms by (simp only: distinct_map simp_thms)
  then show ?thesis by (simp add: comp_def)
qed

lemma sum_thread_effect:
  assumes B: "unat (batch op) < 2147483648" and N: "filters_numel op \<le> 4294967296"
  shows "sum_transposed_filters op filters_tr m t =
     Some (if unat (thread_index t) < filters_numel op
           then m(unat (thread_index t) := m (unat (thread_index t))
                  + (case filter_digits op (unat (thread_index t)) of
                       (oc, c, k1, k2) \<Rightarrow>
                         foldl (+) 0 (map (\<lambda>b. filters_tr (filters_tr_at op b c oc k1 k2))
                                          [0..<unat (batch op)])))
           else m)"
proof (cases "unat (thread_index t) < filters_numel op")
  case True
  obtain oc c k1 k2 where dg: "filter_digits op (unat (thread_index t)) = (oc, c, k1, k2)"
    by (metis prod_cases4)
  show ?thesis
    using True sum_thread_live[OF B filters_tr_numel_fits[OF B N] True dg, of filters_tr m]
    by (simp add: dg)
next
  case False
  show ?thesis
    using False sum_thread_dead[OF filters_tr_numel_fits(2)[OF B N] False, of filters_tr m]
    by simp
qed

lemma sum_launch:
  assumes B: "unat (batch op) < 2147483648" and N: "filters_numel op \<le> 4294967296"
    and d: "distinct (map thread_index ts)"
    and cover: "\<forall>n<filters_numel op. \<exists>t\<in>set ts. unat (thread_index t) = n"
  shows "launch (\<lambda>t m. sum_transposed_filters op filters_tr m t) ts filters =
     Some (\<lambda>d. if d < filters_numel op
                then filters d
                  + (case filter_digits op d of
                       (oc, c, k1, k2) \<Rightarrow>
                         foldl (+) 0 (map (\<lambda>b. filters_tr (filters_tr_at op b c oc k1 k2))
                                          [0..<unat (batch op)]))
                else filters d)"
proof -
  define S where "S = (\<lambda>d. case filter_digits op d of
                       (oc, c, k1, k2) \<Rightarrow>
                         foldl (+) 0 (map (\<lambda>b. filters_tr (filters_tr_at op b c oc k1 k2))
                                          [0..<unat (batch op)]))"
  define I where "I = (\<lambda>t. unat (thread_index t))"
  have k: "sum_transposed_filters op filters_tr m t
           = Some (if I t < filters_numel op then m(I t := m (I t) + S (I t)) else m)" for t m
    unfolding S_def I_def by (rule sum_thread_effect[OF B N])
  have dI: "distinct (map I ts)" unfolding I_def by (rule distinct_thread_index[OF d])
  have c: "d < filters_numel op \<Longrightarrow> d \<in> I ` set ts" for d
    using cover unfolding I_def by force
  have "launch (\<lambda>t m. sum_transposed_filters op filters_tr m t) ts filters
      = Some (\<lambda>d. if d < filters_numel op \<and> d \<in> I ` set ts then filters d + S d else filters d)"
    by (rule launch_adds[where k = "\<lambda>t m. sum_transposed_filters op filters_tr m t", OF k dI])
  also have "\<dots> = Some (\<lambda>d. if d < filters_numel op then filters d + S d else filters d)"
    by (rule arg_cong[where f = Some], rule ext) (use c in auto)
  finally show ?thesis unfolding S_def .
qed

section \<open>The contract of the input patch extractor\<close>

text \<open>
  C1, with the size conditions under which it holds. Take a geometry descriptor whose
  exact patches and image element counts are below \<open>2^64\<close>, and a coordinate
  \<open>(b, c, k1, k2, oh, ow)\<close> of the forward patches tensor whose flat index is below \<open>2^32\<close>
  and for which \<open>oh * stride + k1\<close> and \<open>ow * stride + k2\<close> are below \<open>2^64\<close>. Then the
  thread whose index \<open>blockIdx.x * blockDim.x + threadIdx.x\<close> is that flat index sets the
  patches element to the image element at batch \<open>b\<close>, channel \<open>c\<close>, position
  \<open>y = oh * stride + k1 - padding\<close>, \<open>x = ow * stride + k2 - padding\<close> whenever \<open>y\<close> is in
  \<open>[0, h_in)\<close> and \<open>x\<close> is in \<open>[0, w_in)\<close>, and otherwise performs no write, so that the
  destination keeps its previous value.
\<close>

theorem unfold_input_into_patches_contract:
  assumes "b < unat (batch op)" "c < unat (chan_in op)" "k1 < unat (kernel op)"
      "k2 < unat (kernel op)" "oh < unat (h_out op)" "ow < unat (w_out op)"
    and "fwd_patches_numel op < 2^64" "image_numel op < 2^64"
    and "exact_index t = fwd_flat op b c k1 k2 oh ow" "fwd_flat op b c k1 k2 oh ow < 2^32"
    and "oh * unat (stride op) + k1 < 2^64" "ow * unat (stride op) + k2 < 2^64"
  shows "unfold_input_access op t = Some (fwd_contract op b c k1 k2 oh ow)
       \<and> unfold_input_into_patches op img patches t
           = Some (apply_access img patches (fwd_contract op b c k1 k2 oh ow))"
proof -
  have "unat (thread_index t) = fwd_flat op b c k1 k2 oh ow"
    using thread_index_exact[of t] assms(9,10) by simp
  from unfold_input_access_contract[OF assms(1-8) this assms(11,12)]
  show ?thesis by (simp add: unfold_input_into_patches_def)
qed

text \<open>
  The example of section 8 of the specification: patches element \<open>(0, 0, 2, 2, 2, 2)\<close>, at
  flat index 80, receives image element \<open>(0, 0, 4, 4)\<close>, at offset 24.
\<close>

theorem unfold_input_into_patches_contract_witness:
  "(0::nat) < unat (batch geom_5x5) \<and> (0::nat) < unat (chan_in geom_5x5)
   \<and> (2::nat) < unat (kernel geom_5x5) \<and> (2::nat) < unat (h_out geom_5x5)
   \<and> (2::nat) < unat (w_out geom_5x5)
   \<and> fwd_patches_numel geom_5x5 < 2^64 \<and> image_numel geom_5x5 < 2^64
   \<and> exact_index (thread_no 80) = fwd_flat geom_5x5 0 0 2 2 2 2
   \<and> fwd_flat geom_5x5 0 0 2 2 2 2 < 2^32
   \<and> 2 * unat (stride geom_5x5) + 2 < (2::nat)^64
   \<and> fwd_contract geom_5x5 0 0 2 2 2 2 = Copy 80 24
   \<and> unfold_input_access geom_5x5 (thread_no 80) = Some (Copy 80 24)
   \<and> unfold_input_into_patches geom_5x5 ramp zeros (thread_no 80)
        = Some (zeros(80 := 24))"
proof -
  have fc: "fwd_contract geom_5x5 0 0 2 2 2 2 = Copy 80 24"
    by (simp add: fwd_contract_def src_coord_def fwd_flat_def image_at_def geom_5x5_def)
  have h: "(0::nat) < unat (batch geom_5x5)" "(0::nat) < unat (chan_in geom_5x5)"
    "(2::nat) < unat (kernel geom_5x5)" "(2::nat) < unat (h_out geom_5x5)"
    "(2::nat) < unat (w_out geom_5x5)"
    "fwd_patches_numel geom_5x5 < 2^64" "image_numel geom_5x5 < 2^64"
    "exact_index (thread_no 80) = fwd_flat geom_5x5 0 0 2 2 2 2"
    "fwd_flat geom_5x5 0 0 2 2 2 2 < 2^32"
    "2 * unat (stride geom_5x5) + 2 < (2::nat)^64"
    by (simp_all add: geom_5x5_def fwd_patches_numel_def image_numel_def exact_index_def
        thread_no_def fwd_flat_def)
  from unfold_input_into_patches_contract[OF h(1,2,3,3,4,5,6,7,8,9,10,10),
      of ramp zeros]
  show ?thesis using h fc by (simp add: apply_access_simps ramp_def)
qed

text \<open>
  Without the size conditions C1 fails. In \<open>geom_wrap\<close> the sum \<open>oh * stride + k1\<close> wraps
  to the padding for \<open>oh = 2\<close>, \<open>k1 = 1\<close>, so the thread copies image element 0 although
  \<open>y = 2^64\<close> is outside the image. In \<open>geom_many\<close> the element at flat index \<open>2^32\<close> has
  no thread: the thread with that exact index computes index 0 and writes element 0. In
  \<open>geom_huge\<close> the element count wraps to 0 and every thread returns. In
  \<open>geom_big_image\<close> the image offset of \<open>(1, 0, 0, 0)\<close> wraps from \<open>2^64\<close> to 0.
\<close>

theorem unfold_input_contract_counterexample:
  "(exact_index (thread_no 35) = fwd_flat geom_wrap 0 0 1 1 2 2
      \<and> unfold_input_access geom_wrap (thread_no 35) = Some (Copy 35 0)
      \<and> fwd_contract geom_wrap 0 0 1 1 2 2 = Skip)
   \<and> (exact_index thread_2p32 = fwd_flat geom_many 65536 0 0 0 0 0
      \<and> unfold_input_access geom_many thread_2p32 = Some (Copy 0 0)
      \<and> fwd_contract geom_many 65536 0 0 0 0 0 = Copy 4294967296 4294967296)
   \<and> (exact_index (thread_no 0) = fwd_flat geom_huge 0 0 0 0 0 0
      \<and> unfold_input_access geom_huge (thread_no 0) = Some Skip
      \<and> fwd_contract geom_huge 0 0 0 0 0 0 = Copy 0 0)
   \<and> (exact_index (thread_no 1) = fwd_flat geom_big_image 1 0 0 0 0 0
      \<and> unfold_input_access geom_big_image (thread_no 1) = Some (Copy 1 0)
      \<and> fwd_contract geom_big_image 1 0 0 0 0 0 = Copy 1 18446744073709551616)"
proof -
  have a: "exact_index (thread_no 35) = fwd_flat geom_wrap 0 0 1 1 2 2
      \<and> unfold_input_access geom_wrap (thread_no 35) = Some (Copy 35 0)
      \<and> fwd_contract geom_wrap 0 0 1 1 2 2 = Skip"
    by (simp add: geom_wrap_def thread_no_def exact_index_def fwd_flat_def unfold_input_access_def
        unfold_input_numel_def unfold_input_coords_def thread_index_def divmod_idx_def
        solve_in_def image_offset_def fwd_contract_def src_coord_def)
  have b: "exact_index thread_2p32 = fwd_flat geom_many 65536 0 0 0 0 0
      \<and> unfold_input_access geom_many thread_2p32 = Some (Copy 0 0)
      \<and> fwd_contract geom_many 65536 0 0 0 0 0 = Copy 4294967296 4294967296"
    by (simp add: geom_many_def thread_2p32_def exact_index_def fwd_flat_def unfold_input_access_def
        unfold_input_numel_def unfold_input_coords_def thread_index_def divmod_idx_def
        solve_in_def image_offset_def fwd_contract_def src_coord_def image_at_def)
  have c: "exact_index (thread_no 0) = fwd_flat geom_huge 0 0 0 0 0 0
      \<and> unfold_input_access geom_huge (thread_no 0) = Some Skip
      \<and> fwd_contract geom_huge 0 0 0 0 0 0 = Copy 0 0"
    by (simp add: geom_huge_def thread_no_def exact_index_def fwd_flat_def unfold_input_access_def
        unfold_input_numel_def unfold_input_coords_def thread_index_def divmod_idx_def
        solve_in_def image_offset_def fwd_contract_def src_coord_def image_at_def)
  have d: "exact_index (thread_no 1) = fwd_flat geom_big_image 1 0 0 0 0 0
      \<and> unfold_input_access geom_big_image (thread_no 1) = Some (Copy 1 0)
      \<and> fwd_contract geom_big_image 1 0 0 0 0 0 = Copy 1 18446744073709551616"
    by (simp add: geom_big_image_def thread_no_def exact_index_def fwd_flat_def unfold_input_access_def
        unfold_input_numel_def unfold_input_coords_def thread_index_def divmod_idx_def
        solve_in_def image_offset_def fwd_contract_def src_coord_def image_at_def word_le_nat_alt)
  show ?thesis using a b c d by blast
qed

section \<open>The contract of the output patch extractor\<close>

text \<open>
  C2, with the conditions under which it holds. Take a geometry descriptor with a stride
  that is not zero and with exact patches and output element counts below \<open>2^64\<close>, and a
  coordinate \<open>(b, o, k1, k2, y, x)\<close> of the backward patches tensor whose flat index is
  below \<open>2^32\<close> and for which \<open>y + padding\<close> and \<open>x + padding\<close> are below \<open>2^64\<close>. Then the
  thread whose index is that flat index writes the output-tensor element at
  \<open>oh = (y + padding - k1) / stride\<close>, \<open>ow = (x + padding - k2) / stride\<close> if and only if
  \<open>y + padding \<ge> k1\<close>, the difference is exactly divisible by the stride and \<open>oh < h_out\<close>
  (and the same for \<open>ow\<close> with \<open>x, k2, w_out\<close>); if a guard fails it writes nothing.
  A misaligned tap is skipped, never rounded.
\<close>

theorem unfold_output_into_patches_contract:
  assumes "b < unat (batch op)" "oc < unat (chan_out op)" "k1 < unat (kernel op)"
      "k2 < unat (kernel op)" "y < unat (h_in op)" "x < unat (w_in op)"
    and "bwd_patches_numel op < 2^64" "image_out_numel op < 2^64"
    and "exact_index t = bwd_flat op b oc k1 k2 y x" "bwd_flat op b oc k1 k2 y x < 2^32"
    and "stride op \<noteq> 0"
    and "y + unat (padding op) < 2^64" "x + unat (padding op) < 2^64"
  shows "unfold_output_access op t = Some (bwd_contract op b oc k1 k2 y x)
       \<and> unfold_output_into_patches op image_out patches t
           = Some (apply_access image_out patches (bwd_contract op b oc k1 k2 y x))"
proof -
  have "unat (thread_index t) = bwd_flat op b oc k1 k2 y x"
    using thread_index_exact[of t] assms(9,10) by simp
  from unfold_output_access_contract[OF assms(1-8) this assms(11-13)]
  show ?thesis by (simp add: unfold_output_into_patches_def)
qed

text \<open>
  In the 5x5 example the patches element \<open>(0, 0, 2, 2, 4, 4)\<close>, at flat index 224,
  receives output element \<open>(0, 0, 2, 2)\<close>, at offset 8.
\<close>

theorem unfold_output_into_patches_contract_witness:
  "(0::nat) < unat (batch geom_5x5) \<and> (0::nat) < unat (chan_out geom_5x5)
   \<and> (2::nat) < unat (kernel geom_5x5) \<and> (4::nat) < unat (h_in geom_5x5)
   \<and> (4::nat) < unat (w_in geom_5x5)
   \<and> bwd_patches_numel geom_5x5 < 2^64 \<and> image_out_numel geom_5x5 < 2^64
   \<and> exact_index (thread_no 224) = bwd_flat geom_5x5 0 0 2 2 4 4
   \<and> bwd_flat geom_5x5 0 0 2 2 4 4 < 2^32
   \<and> stride geom_5x5 \<noteq> 0
   \<and> 4 + unat (padding geom_5x5) < (2::nat)^64
   \<and> bwd_contract geom_5x5 0 0 2 2 4 4 = Copy 224 8
   \<and> unfold_output_access geom_5x5 (thread_no 224) = Some (Copy 224 8)
   \<and> unfold_output_into_patches geom_5x5 ramp zeros (thread_no 224)
        = Some (zeros(224 := 8))"
proof -
  have fc: "bwd_contract geom_5x5 0 0 2 2 4 4 = Copy 224 8"
    by (simp add: bwd_contract_def out_coord_def bwd_flat_def image_out_at_def geom_5x5_def)
  have h: "(0::nat) < unat (batch geom_5x5)" "(0::nat) < unat (chan_out geom_5x5)"
    "(2::nat) < unat (kernel geom_5x5)" "(4::nat) < unat (h_in geom_5x5)"
    "(4::nat) < unat (w_in geom_5x5)"
    "bwd_patches_numel geom_5x5 < 2^64" "image_out_numel geom_5x5 < 2^64"
    "exact_index (thread_no 224) = bwd_flat geom_5x5 0 0 2 2 4 4"
    "bwd_flat geom_5x5 0 0 2 2 4 4 < 2^32"
    "stride geom_5x5 \<noteq> 0"
    "4 + unat (padding geom_5x5) < (2::nat)^64"
    by (simp_all add: geom_5x5_def bwd_patches_numel_def image_out_numel_def exact_index_def
        thread_no_def bwd_flat_def)
  from unfold_output_into_patches_contract[OF h(1,2,3,3,4,5,6,7,8,9,10,11,11),
      of ramp zeros]
  show ?thesis using h fc by (simp add: apply_access_simps ramp_def)
qed

text \<open>
  Without the conditions C2 fails. In \<open>geom_wrap\<close> the sum \<open>y + padding\<close> wraps to 0 for
  \<open>y = 1\<close>, which passes all guards, although \<open>2^64\<close> is not divisible by the stride.
  With stride 0 the remainder \<open>oh % stride\<close> is undefined. In \<open>geom_many\<close> the thread with
  exact index \<open>2^32\<close> writes element 0; in \<open>geom_huge\<close> the element count wraps to 0; in
  \<open>geom_big_output\<close> the output offset of \<open>(1, 0, 2^31, 2^31)\<close> loses its term \<open>2^64\<close>.
\<close>

theorem unfold_output_contract_counterexample:
  "(exact_index (thread_no 2) = bwd_flat geom_wrap 0 0 0 0 1 0
      \<and> unfold_output_access geom_wrap (thread_no 2) = Some (Copy 2 1)
      \<and> bwd_contract geom_wrap 0 0 0 0 1 0 = Skip)
   \<and> (exact_index (thread_no 0) = bwd_flat geom_stride0 0 0 0 0 0 0
      \<and> unfold_output_access geom_stride0 (thread_no 0) = None)
   \<and> (exact_index thread_2p32 = bwd_flat geom_many 65536 0 0 0 0 0
      \<and> unfold_output_access geom_many thread_2p32 = Some (Copy 0 0)
      \<and> bwd_contract geom_many 65536 0 0 0 0 0 = Copy 4294967296 4294967296)
   \<and> (exact_index (thread_no 0) = bwd_flat geom_huge 0 0 0 0 0 0
      \<and> unfold_output_access geom_huge (thread_no 0) = Some Skip
      \<and> bwd_contract geom_huge 0 0 0 0 0 0 = Copy 0 0)
   \<and> (exact_index (thread_no 4) = bwd_flat geom_big_output 1 0 0 0 0 0
      \<and> unfold_output_access geom_big_output (thread_no 4) = Some (Copy 4 9223372039002259456)
      \<and> bwd_contract geom_big_output 1 0 0 0 0 0 = Copy 4 27670116112711811072)"
proof -
  note defs = thread_no_def thread_2p32_def exact_index_def bwd_flat_def unfold_output_access_def
        unfold_output_numel_def unfold_output_coords_def thread_index_def divmod_idx_def
        solve_out_def image_out_offset_def bwd_contract_def out_coord_def image_out_at_def
        word_le_nat_alt word_less_nat_alt
  have a: "exact_index (thread_no 2) = bwd_flat geom_wrap 0 0 0 0 1 0
      \<and> unfold_output_access geom_wrap (thread_no 2) = Some (Copy 2 1)
      \<and> bwd_contract geom_wrap 0 0 0 0 1 0 = Skip"
    by (simp add: geom_wrap_def defs)
  have b: "exact_index (thread_no 0) = bwd_flat geom_stride0 0 0 0 0 0 0
      \<and> unfold_output_access geom_stride0 (thread_no 0) = None"
    by (simp add: geom_stride0_def geom_5x5_def defs)
  have c: "exact_index thread_2p32 = bwd_flat geom_many 65536 0 0 0 0 0
      \<and> unfold_output_access geom_many thread_2p32 = Some (Copy 0 0)
      \<and> bwd_contract geom_many 65536 0 0 0 0 0 = Copy 4294967296 4294967296"
    by (simp add: geom_many_def defs)
  have d: "exact_index (thread_no 0) = bwd_flat geom_huge 0 0 0 0 0 0
      \<and> unfold_output_access geom_huge (thread_no 0) = Some Skip
      \<and> bwd_contract geom_huge 0 0 0 0 0 0 = Copy 0 0"
    by (simp add: geom_huge_def defs)
  have e: "exact_index (thread_no 4) = bwd_flat geom_big_output 1 0 0 0 0 0
      \<and> unfold_output_access geom_big_output (thread_no 4) = Some (Copy 4 9223372039002259456)
      \<and> bwd_contract geom_big_output 1 0 0 0 0 0 = Copy 4 27670116112711811072"
    by (simp add: geom_big_output_def defs)
  show ?thesis using a b c d e by blast
qed

section \<open>Duality of the two extractors\<close>

text \<open>
  C3, with the size condition under which it holds. For every valid geometry whose
  padded extents \<open>h_in + 2 * padding\<close> and \<open>w_in + 2 * padding\<close> do not exceed \<open>2^64\<close>, and
  every \<open>oh < h_out\<close>, \<open>ow < w_out\<close>, \<open>k1, k2 < kernel\<close> at which both pairs of guards of
  the forward extractor pass with source position \<open>(y, x)\<close>: \<open>y\<close> and \<open>x\<close> are the exact
  values \<open>oh * stride + k1 - padding\<close> and \<open>ow * stride + k2 - padding\<close>, and the guard
  logic of the backward extractor at \<open>(y, k1)\<close> and \<open>(x, k2)\<close> passes all three guards and
  recovers exactly \<open>oh\<close> and \<open>ow\<close>.
\<close>

theorem unfold_duality:
  assumes v: "valid_geometry op"
    and fit: "unat (h_in op) + 2 * unat (padding op) \<le> 2^64"
             "unat (w_in op) + 2 * unat (padding op) \<le> 2^64"
    and coord: "oh < h_out op" "ow < w_out op" "k1 < kernel op" "k2 < kernel op"
    and fw: "solve_in oh (stride op) k1 (padding op) (h_in op) = Solved y"
            "solve_in ow (stride op) k2 (padding op) (w_in op) = Solved x"
  shows "int (unat y) = src_coord op (unat oh) (unat k1)
       \<and> int (unat x) = src_coord op (unat ow) (unat k2)
       \<and> solve_out y (padding op) k1 (stride op) (h_out op) = Some (Solved oh)
       \<and> solve_out x (padding op) k2 (stride op) (w_out op) = Some (Solved ow)"
proof -
  have s: "stride op \<noteq> 0" using v by (simp add: valid_geometry_def)
  then have S: "0 < unat (stride op)" by (simp add: unat_gt_0)
  have nwy: "unat oh * unat (stride op) + unat k1 < 2^64"
    using v coord(1,3) fit(1) S
    by (intro valid_nowrap[where IN="unat (h_in op)" and P="unat (padding op)"
          and K="unat (kernel op)" and OUT="unat (h_out op)"])
       (simp_all add: valid_geometry_def word_less_nat_alt)
  have nwx: "unat ow * unat (stride op) + unat k2 < 2^64"
    using v coord(2,4) fit(2) S
    by (intro valid_nowrap[where IN="unat (w_in op)" and P="unat (padding op)"
          and K="unat (kernel op)" and OUT="unat (w_out op)"])
       (simp_all add: valid_geometry_def word_less_nat_alt)
  from duality_1d[OF s nwy coord(1) fw(1)] duality_1d[OF s nwx coord(2) fw(2)]
  show ?thesis unfolding src_coord_def by simp
qed

theorem unfold_duality_witness:
  "valid_geometry geom_5x5
   \<and> unat (h_in geom_5x5) + 2 * unat (padding geom_5x5) \<le> 2^64
   \<and> unat (w_in geom_5x5) + 2 * unat (padding geom_5x5) \<le> 2^64
   \<and> (2 :: size_t) < h_out geom_5x5 \<and> (1 :: size_t) < w_out geom_5x5
   \<and> (2 :: size_t) < kernel geom_5x5 \<and> (0 :: size_t) < kernel geom_5x5
   \<and> solve_in 2 (stride geom_5x5) 2 (padding geom_5x5) (h_in geom_5x5) = Solved 4
   \<and> solve_in 1 (stride geom_5x5) 0 (padding geom_5x5) (w_in geom_5x5) = Solved 1
   \<and> solve_out 4 (padding geom_5x5) 2 (stride geom_5x5) (h_out geom_5x5) = Some (Solved 2)
   \<and> solve_out 1 (padding geom_5x5) 0 (stride geom_5x5) (w_out geom_5x5) = Some (Solved 1)"
proof -
  have h: "valid_geometry geom_5x5"
    "unat (h_in geom_5x5) + 2 * unat (padding geom_5x5) \<le> 2^64"
    "unat (w_in geom_5x5) + 2 * unat (padding geom_5x5) \<le> 2^64"
    "(2 :: size_t) < h_out geom_5x5" "(1 :: size_t) < w_out geom_5x5"
    "(2 :: size_t) < kernel geom_5x5" "(0 :: size_t) < kernel geom_5x5"
    "solve_in 2 (stride geom_5x5) 2 (padding geom_5x5) (h_in geom_5x5) = Solved 4"
    "solve_in 1 (stride geom_5x5) 0 (padding geom_5x5) (w_in geom_5x5) = Solved 1"
    by (simp_all add: valid_geometry_def geom_5x5_def solve_in_def word_le_nat_alt word_less_nat_alt)
  from unfold_duality[OF h] h show ?thesis by simp
qed

text \<open>
  Without the size condition C3 fails: \<open>geom_wrap\<close> satisfies the output-size formula,
  the forward guards pass at \<open>oh = 2\<close>, \<open>k1 = 1\<close> with \<open>y = 0\<close> (the sum wrapped), and
  the backward guards at \<open>y = 0\<close>, \<open>k1 = 1\<close> reject.
\<close>

theorem unfold_duality_counterexample:
  "valid_geometry geom_wrap
   \<and> (2 :: size_t) < h_out geom_wrap \<and> (1 :: size_t) < kernel geom_wrap
   \<and> solve_in 2 (stride geom_wrap) 1 (padding geom_wrap) (h_in geom_wrap) = Solved 0
   \<and> solve_out 0 (padding geom_wrap) 1 (stride geom_wrap) (h_out geom_wrap) = Some Rejected"
  by (simp add: valid_geometry_def geom_wrap_def solve_in_def solve_out_def word_le_nat_alt word_less_nat_alt)

section \<open>The contract of the filter transpose-broadcast\<close>

text \<open>
  C4, with the size conditions under which it holds. For every geometry descriptor with
  fewer than \<open>2^31\<close> batch slices and at most \<open>2^32\<close> filter elements, and every filter
  tensor: after \<open>transpose_and_broadcast_filters\<close> has run over threads that include, for
  every unit index below chan_in * chan_out * kernel * kernel, a thread with that index,
  every batch slice of the 5D result equals the filter tensor with the channel axes
  swapped, \<open>result[b][c][o][k1][k2] = filter[o][c][k1][k2]\<close> for all indices, and hence
  any two batch slices are equal.
\<close>

theorem transpose_and_broadcast_contract:
  assumes "unat (batch op) < 2^31" and "filters_numel op \<le> 2^32"
    and "\<forall>n<filters_numel op. \<exists>t\<in>set ts. exact_index t = n"
  shows "\<exists>r. launch (\<lambda>t m. transpose_and_broadcast_filters op filters m t) ts filters_tr = Some r
     \<and> (\<forall>b<unat (batch op). \<forall>c<unat (chan_in op). \<forall>oc<unat (chan_out op).
          \<forall>k1<unat (kernel op). \<forall>k2<unat (kernel op).
            r (filters_tr_at op b c oc k1 k2) = filters (filters_at op oc c k1 k2))
     \<and> (\<forall>b1<unat (batch op). \<forall>b2<unat (batch op). \<forall>c<unat (chan_in op).
          \<forall>oc<unat (chan_out op). \<forall>k1<unat (kernel op). \<forall>k2<unat (kernel op).
            r (filters_tr_at op b1 c oc k1 k2) = r (filters_tr_at op b2 c oc k1 k2))"
proof -
  have B: "unat (batch op) < 2147483648" and N: "filters_numel op \<le> 4294967296"
    using assms(1,2) by simp_all
  define r where "r = (\<lambda>d. if d < filters_tr_numel op then filters (transposed_source op d)
                             else filters_tr d)"
  have l: "launch (\<lambda>t m. transpose_and_broadcast_filters op filters m t) ts filters_tr = Some r"
    unfolding r_def by (rule transpose_launch[OF B N cover_exact[OF N assms(3)]])
  have v: "r (filters_tr_at op b c oc k1 k2) = filters (filters_at op oc c k1 k2)"
    if "b < unat (batch op)" "c < unat (chan_in op)" "oc < unat (chan_out op)"
      "k1 < unat (kernel op)" "k2 < unat (kernel op)" for b c oc k1 k2
    unfolding r_def using filters_tr_at_lt[OF that] transposed_source_at[OF that] by simp
  show ?thesis using l v by simp
qed

theorem transpose_and_broadcast_contract_witness:
  "unat (batch geom_filters) < 2^31 \<and> filters_numel geom_filters \<le> 2^32
   \<and> filters_numel geom_filters = 4
   \<and> exact_index (thread_no 0) = 0 \<and> exact_index (thread_no 1) = 1
   \<and> exact_index (thread_no 2) = 2 \<and> exact_index (thread_no 3) = 3
   \<and> (1::nat) < unat (batch geom_filters) \<and> (0::nat) < unat (chan_in geom_filters)
   \<and> (1::nat) < unat (chan_out geom_filters) \<and> (0::nat) < unat (kernel geom_filters)
   \<and> filters_tr_at geom_filters 1 0 1 0 0 = 5 \<and> filters_at geom_filters 1 0 0 0 = 2
   \<and> (\<exists>r. launch (\<lambda>t m. transpose_and_broadcast_filters geom_filters ramp m t)
               [thread_no 0, thread_no 1, thread_no 2, thread_no 3] zeros = Some r
           \<and> r 5 = ramp 2 \<and> r 5 = r 1)"
proof -
  have e: "filters_numel geom_filters = 4" "unat (batch geom_filters) = 2"
    "unat (chan_in geom_filters) = 2" "unat (chan_out geom_filters) = 2"
    "unat (kernel geom_filters) = 1"
    "filters_tr_at geom_filters 1 0 1 0 0 = 5" "filters_at geom_filters 1 0 0 0 = 2"
    "filters_tr_at geom_filters 0 0 1 0 0 = 1"
    by (simp_all add: filters_numel_def geom_filters_def filters_tr_at_def filters_at_def)
  have x: "exact_index (thread_no 0) = 0" "exact_index (thread_no 1) = 1"
    "exact_index (thread_no 2) = 2" "exact_index (thread_no 3) = 3"
    by (simp_all add: exact_index_def thread_no_def)
  have c: "\<forall>n<filters_numel geom_filters.
         \<exists>t\<in>set [thread_no 0, thread_no 1, thread_no 2, thread_no 3]. exact_index t = n"
  proof (intro allI impI)
    fix n assume "n < filters_numel geom_filters"
    then have "n = 0 \<or> n = 1 \<or> n = 2 \<or> n = 3" unfolding e by linarith
    then show "\<exists>t\<in>set [thread_no 0, thread_no 1, thread_no 2, thread_no 3]. exact_index t = n"
      using x by auto
  qed
  have h: "unat (batch geom_filters) < 2^31" "filters_numel geom_filters \<le> 2^32"
    unfolding e by simp_all
  define ts where "ts = [thread_no 0, thread_no 1, thread_no 2, thread_no 3]"
  define L where "L = launch (\<lambda>t m. transpose_and_broadcast_filters geom_filters ramp m t) ts zeros"
  from transpose_and_broadcast_contract[OF h c, of ramp zeros]
  obtain r where r: "L = Some r"
    and v: "\<forall>b<unat (batch geom_filters). \<forall>c<unat (chan_in geom_filters).
          \<forall>oc<unat (chan_out geom_filters). \<forall>k1<unat (kernel geom_filters).
          \<forall>k2<unat (kernel geom_filters).
            r (filters_tr_at geom_filters b c oc k1 k2) = ramp (filters_at geom_filters oc c k1 k2)"
    and s: "\<forall>b1<unat (batch geom_filters). \<forall>b2<unat (batch geom_filters).
          \<forall>c<unat (chan_in geom_filters). \<forall>oc<unat (chan_out geom_filters).
          \<forall>k1<unat (kernel geom_filters). \<forall>k2<unat (kernel geom_filters).
            r (filters_tr_at geom_filters b1 c oc k1 k2) = r (filters_tr_at geom_filters b2 c oc k1 k2)"
    unfolding L_def ts_def by blast
  have "r 5 = ramp 2" using v[rule_format, of 1 0 1 0 0] e by simp
  moreover have "r 5 = r 1" using s[rule_format, of 1 0 0 1 0 0] e by simp
  ultimately have "\<exists>r. L = Some r \<and> r 5 = ramp 2 \<and> r 5 = r 1" using r by blast
  then show ?thesis unfolding L_def ts_def using h x e by simp
qed

text \<open>
  Without the size conditions C4 fails. With \<open>2^31\<close> batch slices the loop counter, an
  \<open>int\<close>, is incremented at \<open>INT_MAX\<close>: the behaviour is undefined. With \<open>2^32 + 1\<close>
  filter elements the thread whose exact index is the last unit index, \<open>2^32\<close>, computes
  index 0 and writes destination element 0, not element \<open>2^32\<close>.
\<close>

theorem transpose_and_broadcast_counterexample:
  "(filters_numel geom_batch_2p31 = 1 \<and> exact_index (thread_no 0) = 0
      \<and> transpose_and_broadcast_filters geom_batch_2p31 ones zeros (thread_no 0) = None)
   \<and> (exact_index thread_2p32 = filters_at geom_wide 0 4294967296 0 0
      \<and> filters_at geom_wide 0 4294967296 0 0 < filters_numel geom_wide
      \<and> filters_tr_at geom_wide 0 4294967296 0 0 0 = 4294967296
      \<and> transpose_and_broadcast_filters geom_wide ones zeros thread_2p32 = Some (zeros(0 := 1)))"
proof -
  have n1: "filters_numel geom_batch_2p31 = 1"
    by (simp add: filters_numel_def geom_batch_2p31_def)
  have a1: "filters_numel geom_batch_2p31 = 1 \<and> exact_index (thread_no 0) = 0"
    unfolding n1 by (simp add: exact_index_def thread_no_def)
  have "broadcast_loop (batch geom_batch_2p31) (transpose_numel geom_batch_2p31) 0 (ones 0) 0 zeros = None"
    by (rule broadcast_loop_overflow) (simp_all add: geom_batch_2p31_def INT_MAX_def)
  then have a2: "transpose_and_broadcast_filters geom_batch_2p31 ones zeros (thread_no 0) = None"
    by (simp add: transpose_and_broadcast_filters_def thread_no_def thread_index_def
        transposed_offset_0 geom_batch_2p31_def transpose_numel_def word_le_nat_alt)
  have b1: "exact_index thread_2p32 = filters_at geom_wide 0 4294967296 0 0
      \<and> filters_at geom_wide 0 4294967296 0 0 < filters_numel geom_wide
      \<and> filters_tr_at geom_wide 0 4294967296 0 0 0 = 4294967296"
    by (simp add: exact_index_def thread_2p32_def filters_at_def filters_tr_at_def
        filters_numel_def geom_wide_def)
  have ti: "thread_index thread_2p32 = 0"
    by (simp add: thread_index_def thread_2p32_def word_unat_eq_iff unat_word_ariths)
  have b2: "transpose_and_broadcast_filters geom_wide ones zeros thread_2p32 = Some (zeros(0 := 1))"
    by (simp add: transpose_and_broadcast_filters_def ti
        transposed_offset_0 geom_wide_def transpose_numel_def word_le_nat_alt word_less_nat_alt
        broadcast_loop.simps slot_def ones_def INT_MAX_def)
  show ?thesis using a1 a2 b1 b2 by blast
qed

section \<open>The contract of the filter gradient reducer\<close>

text \<open>
  C5, with the conditions under which it holds. For every geometry descriptor with fewer
  than \<open>2^31\<close> batch slices and at most \<open>2^32\<close> filter elements, every batched tensor of
  partial gradients and every destination tensor: a launch of \<open>sum_transposed_filters\<close>
  whose threads have pairwise distinct 32-bit indices (as in a grid of at most \<open>2^32\<close>
  threads) and include a thread for every flat index of the destination replaces every
  element \<open>(o, c, k1, k2)\<close> by its previous value plus the sum of
  \<open>source[b][c][o][k1][k2]\<close> over all batch indices \<open>b\<close>, accumulated from zero in the order
  of \<open>b\<close>, and changes nothing outside the destination tensor. The previous value is kept
  as a term of the sum: a second launch adds a second sum to the result of the first.
\<close>

theorem sum_transposed_filters_accumulates:
  assumes "unat (batch op) < 2^31" and "filters_numel op \<le> 2^32"
    and "distinct (map thread_index ts)"
    and "\<forall>n<filters_numel op. \<exists>t\<in>set ts. exact_index t = n"
  shows "\<exists>r. launch (\<lambda>t m. sum_transposed_filters op filters_tr m t) ts filters = Some r
     \<and> (\<forall>oc<unat (chan_out op). \<forall>c<unat (chan_in op). \<forall>k1<unat (kernel op).
          \<forall>k2<unat (kernel op).
            r (filters_at op oc c k1 k2) =
              filters (filters_at op oc c k1 k2)
              + foldl (+) 0 (map (\<lambda>b. filters_tr (filters_tr_at op b c oc k1 k2))
                                 [0..<unat (batch op)]))
     \<and> (\<forall>d. filters_numel op \<le> d \<longrightarrow> r d = filters d)
     \<and> (\<exists>r'. launch (\<lambda>t m. sum_transposed_filters op filters_tr' m t) ts r = Some r'
          \<and> (\<forall>oc<unat (chan_out op). \<forall>c<unat (chan_in op). \<forall>k1<unat (kernel op).
               \<forall>k2<unat (kernel op).
                 r' (filters_at op oc c k1 k2) =
                   (filters (filters_at op oc c k1 k2)
                    + foldl (+) 0 (map (\<lambda>b. filters_tr (filters_tr_at op b c oc k1 k2))
                                       [0..<unat (batch op)]))
                   + foldl (+) 0 (map (\<lambda>b. filters_tr' (filters_tr_at op b c oc k1 k2))
                                      [0..<unat (batch op)]))
          \<and> (\<forall>d. filters_numel op \<le> d \<longrightarrow> r' d = filters d))"
proof -
  have B: "unat (batch op) < 2147483648" and N: "filters_numel op \<le> 4294967296"
    using assms(1,2) by simp_all
  note cov = cover_exact[OF N assms(4)]
  define S where "S = (\<lambda>(src :: 'a buffer) d. case filter_digits op d of
                       (oc, c, k1, k2) \<Rightarrow>
                         foldl (+) 0 (map (\<lambda>b. src (filters_tr_at op b c oc k1 k2))
                                          [0..<unat (batch op)]))"
  define r where "r = (\<lambda>d. if d < filters_numel op then filters d + S filters_tr d else filters d)"
  define r' where "r' = (\<lambda>d. if d < filters_numel op then r d + S filters_tr' d else r d)"
  have l: "launch (\<lambda>t m. sum_transposed_filters op filters_tr m t) ts filters = Some r"
    unfolding r_def S_def by (simp add: sum_launch[OF B N assms(3) cov])
  have l': "launch (\<lambda>t m. sum_transposed_filters op filters_tr' m t) ts r = Some r'"
    unfolding r'_def S_def by (simp add: sum_launch[OF B N assms(3) cov])
  have s: "S src (filters_at op oc c k1 k2)
           = foldl (+) 0 (map (\<lambda>b. src (filters_tr_at op b c oc k1 k2)) [0..<unat (batch op)])"
    if "oc < unat (chan_out op)" "c < unat (chan_in op)" "k1 < unat (kernel op)"
      "k2 < unat (kernel op)" for src oc c k1 k2
    unfolding S_def by (simp add: filter_digits_at[OF that])
  have v: "r (filters_at op oc c k1 k2) = filters (filters_at op oc c k1 k2)
              + foldl (+) 0 (map (\<lambda>b. filters_tr (filters_tr_at op b c oc k1 k2))
                                 [0..<unat (batch op)])"
    if "oc < unat (chan_out op)" "c < unat (chan_in op)" "k1 < unat (kernel op)"
      "k2 < unat (kernel op)" for oc c k1 k2
    unfolding r_def using filters_at_lt[OF that] s[OF that] by simp
  have v': "r' (filters_at op oc c k1 k2) = (filters (filters_at op oc c k1 k2)
              + foldl (+) 0 (map (\<lambda>b. filters_tr (filters_tr_at op b c oc k1 k2))
                                 [0..<unat (batch op)]))
              + foldl (+) 0 (map (\<lambda>b. filters_tr' (filters_tr_at op b c oc k1 k2))
                                 [0..<unat (batch op)])"
    if "oc < unat (chan_out op)" "c < unat (chan_in op)" "k1 < unat (kernel op)"
      "k2 < unat (kernel op)" for oc c k1 k2
    unfolding r'_def using filters_at_lt[OF that] s[OF that] v[OF that] by simp
  have o: "filters_numel op \<le> d \<Longrightarrow> r d = filters d" for d by (simp add: r_def)
  have o': "filters_numel op \<le> d \<Longrightarrow> r' d = filters d" for d by (simp add: r'_def r_def)
  show ?thesis using l l' v v' o o' by blast
qed

theorem sum_transposed_filters_accumulates_witness:
  "unat (batch geom_filters) < 2^31 \<and> filters_numel geom_filters \<le> 2^32
   \<and> distinct (map thread_index [thread_no 0, thread_no 1, thread_no 2, thread_no 3])
   \<and> filters_numel geom_filters = 4
   \<and> exact_index (thread_no 0) = 0 \<and> exact_index (thread_no 1) = 1
   \<and> exact_index (thread_no 2) = 2 \<and> exact_index (thread_no 3) = 3
   \<and> (1::nat) < unat (chan_out geom_filters) \<and> (0::nat) < unat (chan_in geom_filters)
   \<and> (0::nat) < unat (kernel geom_filters)
   \<and> filters_at geom_filters 1 0 0 0 = 2
   \<and> (\<exists>r. launch (\<lambda>t m. sum_transposed_filters geom_filters ramp m t)
               [thread_no 0, thread_no 1, thread_no 2, thread_no 3] ones = Some r
           \<and> r 2 = 7 \<and> r 4 = 1
           \<and> (\<exists>r'. launch (\<lambda>t m. sum_transposed_filters geom_filters ones m t)
                       [thread_no 0, thread_no 1, thread_no 2, thread_no 3] r = Some r'
                   \<and> r' 2 = 9 \<and> r' 4 = 1))"
proof -
  have e: "filters_numel geom_filters = 4" "unat (batch geom_filters) = 2"
    "unat (chan_in geom_filters) = 2" "unat (chan_out geom_filters) = 2"
    "unat (kernel geom_filters) = 1"
    "filters_at geom_filters 1 0 0 0 = 2"
    "filters_tr_at geom_filters 0 0 1 0 0 = 1" "filters_tr_at geom_filters 1 0 1 0 0 = 5"
    by (simp_all add: filters_numel_def geom_filters_def filters_tr_at_def filters_at_def)
  have x: "exact_index (thread_no 0) = 0" "exact_index (thread_no 1) = 1"
    "exact_index (thread_no 2) = 2" "exact_index (thread_no 3) = 3"
    by (simp_all add: exact_index_def thread_no_def)
  have dt: "distinct (map thread_index [thread_no 0, thread_no 1, thread_no 2, thread_no 3])"
    by (simp add: thread_index_def thread_no_def)
  have c: "\<forall>n<filters_numel geom_filters.
         \<exists>t\<in>set [thread_no 0, thread_no 1, thread_no 2, thread_no 3]. exact_index t = n"
  proof (intro allI impI)
    fix n assume "n < filters_numel geom_filters"
    then have "n = 0 \<or> n = 1 \<or> n = 2 \<or> n = 3" unfolding e by linarith
    then show "\<exists>t\<in>set [thread_no 0, thread_no 1, thread_no 2, thread_no 3]. exact_index t = n"
      using x by auto
  qed
  have h: "unat (batch geom_filters) < 2^31" "filters_numel geom_filters \<le> 2^32"
    unfolding e by simp_all
  have u: "[0..<2] = [0, 1]" by (simp add: upt_rec)
  define ts where "ts = [thread_no 0, thread_no 1, thread_no 2, thread_no 3]"
  define L where "L = launch (\<lambda>t m. sum_transposed_filters geom_filters ramp m t) ts ones"
  define L' where "L' = (\<lambda>r. launch (\<lambda>t m. sum_transposed_filters geom_filters ones m t) ts r)"
  from sum_transposed_filters_accumulates[OF h dt c, of ramp ones ones]
  obtain r r' where r: "L = Some r"
    and v: "\<forall>oc<unat (chan_out geom_filters). \<forall>c<unat (chan_in geom_filters).
          \<forall>k1<unat (kernel geom_filters). \<forall>k2<unat (kernel geom_filters).
            r (filters_at geom_filters oc c k1 k2) =
              ones (filters_at geom_filters oc c k1 k2)
              + foldl (+) 0 (map (\<lambda>b. ramp (filters_tr_at geom_filters b c oc k1 k2))
                                 [0..<unat (batch geom_filters)])"
    and o: "\<forall>d. filters_numel geom_filters \<le> d \<longrightarrow> r d = ones d"
    and r': "L' r = Some r'"
    and v': "\<forall>oc<unat (chan_out geom_filters). \<forall>c<unat (chan_in geom_filters).
          \<forall>k1<unat (kernel geom_filters). \<forall>k2<unat (kernel geom_filters).
            r' (filters_at geom_filters oc c k1 k2) =
              (ones (filters_at geom_filters oc c k1 k2)
               + foldl (+) 0 (map (\<lambda>b. ramp (filters_tr_at geom_filters b c oc k1 k2))
                                  [0..<unat (batch geom_filters)]))
              + foldl (+) 0 (map (\<lambda>b. ones (filters_tr_at geom_filters b c oc k1 k2))
                                 [0..<unat (batch geom_filters)])"
    and o': "\<forall>d. filters_numel geom_filters \<le> d \<longrightarrow> r' d = ones d"
    unfolding L_def L'_def ts_def by blast
  have e': "filters_at geom_filters (Suc 0) 0 0 0 = 2"
    "filters_tr_at geom_filters 0 0 (Suc 0) 0 0 = 1"
    "filters_tr_at geom_filters (Suc 0) 0 (Suc 0) 0 0 = 5"
    using e by simp_all
  have "r 2 = 7"
    using v[rule_format, of 1 0 0 0] by (simp add: e e' u ramp_def ones_def)
  moreover have "r' 2 = 9"
    using v'[rule_format, of 1 0 0 0] by (simp add: e e' u ramp_def ones_def)
  moreover have "r 4 = 1" using o[rule_format, of 4] by (simp add: e ones_def)
  moreover have "r' 4 = 1" using o'[rule_format, of 4] by (simp add: e ones_def)
  ultimately have "\<exists>r. L = Some r \<and> r 2 = 7 \<and> r 4 = 1
      \<and> (\<exists>r'. L' r = Some r' \<and> r' 2 = 9 \<and> r' 4 = 1)"
    using r r' by blast
  then show ?thesis unfolding L_def L'_def ts_def using h x e dt by simp
qed

text \<open>
  Without the conditions C5 fails. With \<open>2^31\<close> batch slices the loop counter overflows:
  the behaviour is undefined. In \<open>geom_wide\<close>, with \<open>2^32 + 1\<close> filter elements, the threads
  with exact indices 0 and \<open>2^32\<close> both hold index 0: run one after the other they add
  twice into element 0, which then holds 2 and not 1, and never into element \<open>2^32\<close>. In
  \<open>geom_filters\<close>, with four filter elements, the thread with exact index \<open>2^32\<close> lies past
  the element count and yet adds a second time into element 0.
\<close>

theorem sum_transposed_filters_counterexample:
  "(exact_index (thread_no 0) = filters_at geom_batch_2p31 0 0 0 0
      \<and> sum_transposed_filters geom_batch_2p31 ones zeros (thread_no 0) = None)
   \<and> (exact_index (thread_no 0) = filters_at geom_wide 0 0 0 0
      \<and> exact_index thread_2p32 = filters_at geom_wide 0 4294967296 0 0
      \<and> filters_at geom_wide 0 4294967296 0 0 < filters_numel geom_wide
      \<and> unat (batch geom_wide) = 1
      \<and> sum_transposed_filters geom_wide ones zeros (thread_no 0) = Some (zeros(0 := 1))
      \<and> sum_transposed_filters geom_wide ones (zeros(0 := 1)) thread_2p32
          = Some (zeros(0 := 2)))
   \<and> (filters_numel geom_filters = 4
      \<and> exact_index (thread_no 0) = 0 \<and> exact_index thread_2p32 = 4294967296
      \<and> sum_transposed_filters geom_filters ones zeros (thread_no 0) = Some (zeros(0 := 2))
      \<and> sum_transposed_filters geom_filters ones (zeros(0 := 2)) thread_2p32
          = Some (zeros(0 := 4)))"
proof -
  have x: "exact_index (thread_no 0) = 0" "thread_index (thread_no 0) = 0"
    by (simp_all add: exact_index_def thread_no_def thread_index_def)
  have "sum_loop (batch geom_batch_2p31) (sum_numel geom_batch_2p31) 0 ones 0 (0::nat) = None"
    by (rule sum_loop_overflow) (simp_all add: geom_batch_2p31_def INT_MAX_def)
  then have a: "exact_index (thread_no 0) = filters_at geom_batch_2p31 0 0 0 0
      \<and> sum_transposed_filters geom_batch_2p31 ones zeros (thread_no 0) = None"
    by (simp add: sum_transposed_filters_def x transposed_offset_0 geom_batch_2p31_def
        sum_numel_def word_le_nat_alt filters_at_def)
  have ti: "thread_index thread_2p32 = 0"
    by (simp add: thread_index_def thread_2p32_def word_unat_eq_iff unat_word_ariths)
  have b1: "exact_index (thread_no 0) = filters_at geom_wide 0 0 0 0
      \<and> exact_index thread_2p32 = filters_at geom_wide 0 4294967296 0 0
      \<and> filters_at geom_wide 0 4294967296 0 0 < filters_numel geom_wide
      \<and> unat (batch geom_wide) = 1"
    by (simp add: geom_wide_def filters_at_def filters_numel_def exact_index_def thread_2p32_def
        thread_no_def)
  have b2: "sum_transposed_filters geom_wide ones zeros (thread_no 0) = Some (zeros(0 := 1))"
    by (simp add: sum_transposed_filters_def x transposed_offset_0 geom_wide_def sum_numel_def
        word_le_nat_alt word_less_nat_alt sum_loop.simps slot_def
        ones_def zeros_def INT_MAX_def)
  have two: "Suc (Suc 0) = 2" by simp
  have b3: "sum_transposed_filters geom_wide ones (zeros(0 := 1)) thread_2p32
          = Some (zeros(0 := 2))"
    by (simp add: sum_transposed_filters_def ti transposed_offset_0 geom_wide_def sum_numel_def
        word_le_nat_alt word_less_nat_alt sum_loop.simps slot_def
        ones_def zeros_def INT_MAX_def two)
  have c1: "filters_numel geom_filters = 4
      \<and> exact_index (thread_no 0) = 0 \<and> exact_index thread_2p32 = 4294967296"
    by (simp add: geom_filters_def filters_numel_def exact_index_def thread_2p32_def thread_no_def)
  have c2: "sum_transposed_filters geom_filters ones zeros (thread_no 0) = Some (zeros(0 := 2))"
    by (simp add: sum_transposed_filters_def x transposed_offset_0 geom_filters_def sum_numel_def
        word_le_nat_alt word_less_nat_alt sum_loop.simps slot_def
        ones_def zeros_def INT_MAX_def)
       (simp add: numeral_2_eq_2)
  have c3: "sum_transposed_filters geom_filters ones (zeros(0 := 2)) thread_2p32
          = Some (zeros(0 := 4))"
    by (simp add: sum_transposed_filters_def ti transposed_offset_0 geom_filters_def sum_numel_def
        word_le_nat_alt word_less_nat_alt sum_loop.simps slot_def
        ones_def zeros_def INT_MAX_def)
       (simp add: eval_nat_numeral)
  show ?thesis using a b1 b2 b3 c1 c2 c3 by blast
qed

section \<open>Writes stay inside the patches tensor\<close>

text \<open>
  C6, with the condition under which the backward extractor is defined. Whatever the
  geometry descriptor and whatever the thread coordinates: a thread of
  \<open>unfold_input_into_patches\<close> has no undefined operation; a thread of
  \<open>unfold_output_into_patches\<close> has none when the stride is not zero; and the only write
  a thread of either extractor can perform goes to \<open>patches[i]\<close> for its own thread index
  \<open>i\<close>, and this index is strictly below the exact element count of the patches tensor of
  that direction (batch * channels * kernel * kernel * spatial extents, without
  wrap-around). Threads past the element count and adversarial geometries are included.
\<close>

theorem extractor_writes_in_bounds:
  "unfold_input_access op t \<noteq> None
   \<and> (unfold_input_access op t = Some (Copy d s)
        \<longrightarrow> d = unat (thread_index t) \<and> d < fwd_patches_numel op)
   \<and> (stride op \<noteq> 0 \<longrightarrow> unfold_output_access op t' \<noteq> None)
   \<and> (unfold_output_access op t' = Some (Copy d' s')
        \<longrightarrow> d' = unat (thread_index t') \<and> d' < bwd_patches_numel op)"
  using unfold_input_access_Copy[of op t d s] unfold_output_access_Copy[of op t' d' s']
    unfold_input_access_defined[of op t] unfold_output_access_defined[of op t']
  by blast

theorem extractor_writes_in_bounds_witness:
  "unfold_input_access geom_5x5 (thread_no 80) = Some (Copy 80 24)
   \<and> 80 < fwd_patches_numel geom_5x5
   \<and> stride geom_5x5 \<noteq> 0
   \<and> unfold_output_access geom_5x5 (thread_no 224) = Some (Copy 224 8)
   \<and> 224 < bwd_patches_numel geom_5x5"
proof -
  have a: "unfold_input_access geom_5x5 (thread_no 80) = Some (Copy 80 24)"
    by (simp add: unfold_input_access_def unfold_input_numel_def unfold_input_coords_def
        image_offset_def geom_5x5_def thread_no_def thread_index_def divmod_idx_def solve_in_def)
  have b: "unfold_output_access geom_5x5 (thread_no 224) = Some (Copy 224 8)"
    by (simp add: unfold_output_access_def unfold_output_numel_def unfold_output_coords_def
        image_out_offset_def geom_5x5_def thread_no_def thread_index_def divmod_idx_def
        solve_out_def)
  have c: "stride geom_5x5 \<noteq> 0" by (simp add: geom_5x5_def)
  show ?thesis
    using extractor_writes_in_bounds[of geom_5x5 "thread_no 80" 80 24 "thread_no 224" 224 8] a b c
    by simp
qed

text \<open>
  As stated, for every geometry descriptor, C6 fails. In \<open>geom_stride0\<close> the thread of the
  patches element \<open>(0, 0, 0, 0, 0, 0)\<close>, which is inside the tensor, passes the first guard
  and evaluates \<open>oh % stride\<close> with stride 0: its behaviour is undefined, and nothing bounds
  what it writes.
\<close>

theorem extractor_writes_counterexample:
  "stride geom_stride0 = 0
   \<and> exact_index (thread_no 0) = bwd_flat geom_stride0 0 0 0 0 0 0
   \<and> bwd_flat geom_stride0 0 0 0 0 0 0 < bwd_patches_numel geom_stride0
   \<and> unfold_output_access geom_stride0 (thread_no 0) = None"
  by (simp add: geom_stride0_def geom_5x5_def exact_index_def thread_no_def bwd_flat_def
      bwd_patches_numel_def unfold_output_access_def unfold_output_numel_def
      unfold_output_coords_def thread_index_def divmod_idx_def solve_out_def
      word_le_nat_alt word_less_nat_alt)

section \<open>Zero fill\<close>

text \<open>
  C7. For every geometry with padding greater than zero, every element of the patches
  tensor at a coordinate \<open>(b, c, k1 = 0, k2, oh = 0, ow)\<close> is never written; a tensor that is
  not empty has such elements, among them the one at \<open>(0, 0, 0, 0, 0, 0)\<close>. The thread
  with the index of the element takes the early return for padding underflow (the source
  coordinate is neither clamped nor wrapped), and after any launch of
  \<open>unfold_input_into_patches\<close>, over any collection of threads, the element holds the value
  it held before, which is zero for a zero-initialised buffer.
\<close>

theorem zero_fill_respected:
  assumes "padding op \<noteq> 0"
    and "b < unat (batch op)" "c < unat (chan_in op)" "k2 < unat (kernel op)"
      "0 < unat (h_out op)" "ow < unat (w_out op)"
  shows "fwd_flat op b c 0 k2 0 ow < fwd_patches_numel op
       \<and> (unat (thread_index t) = fwd_flat op b c 0 k2 0 ow
            \<longrightarrow> unfold_input_access op t = Some Skip)
       \<and> (\<exists>p'. launch (\<lambda>t p. unfold_input_into_patches op img p t) ts patches = Some p'
                \<and> p' (fwd_flat op b c 0 k2 0 ow) = patches (fwd_flat op b c 0 k2 0 ow))"
proof -
  have k: "0 < unat (kernel op)" using assms(4) by simp
  have 1: "fwd_flat op b c 0 k2 0 ow < fwd_patches_numel op"
    by (rule fwd_flat_lt[OF assms(2,3) k assms(4,5,6)])
  have 3: "\<exists>p'. launch (\<lambda>t p. unfold_input_into_patches op img p t) ts patches = Some p'
                \<and> p' (fwd_flat op b c 0 k2 0 ow) = patches (fwd_flat op b c 0 k2 0 ow)"
    by (rule launch_preserves) (rule unfold_input_keeps_border[OF assms])
  show ?thesis
    using 1 3 unfold_input_access_border[OF assms, of t] by simp
qed

theorem zero_fill_respected_witness:
  "padding geom_pad1 \<noteq> 0
   \<and> (0::nat) < unat (batch geom_pad1) \<and> (0::nat) < unat (chan_in geom_pad1)
   \<and> (1::nat) < unat (kernel geom_pad1) \<and> (0::nat) < unat (h_out geom_pad1)
   \<and> (2::nat) < unat (w_out geom_pad1)
   \<and> fwd_flat geom_pad1 0 0 0 1 0 2 = 27
   \<and> 27 < fwd_patches_numel geom_pad1
   \<and> unat (thread_index (thread_no 27)) = 27
   \<and> unfold_input_access geom_pad1 (thread_no 27) = Some Skip
   \<and> map_option (\<lambda>p. p 27)
        (launch (\<lambda>t p. unfold_input_into_patches geom_pad1 ramp p t)
           [thread_no 0, thread_no 27, thread_no 31] zeros) = Some 0"
proof -
  have h: "padding geom_pad1 \<noteq> 0"
    "(0::nat) < unat (batch geom_pad1)" "(0::nat) < unat (chan_in geom_pad1)"
    "(1::nat) < unat (kernel geom_pad1)" "(0::nat) < unat (h_out geom_pad1)"
    "(2::nat) < unat (w_out geom_pad1)"
    by (simp_all add: geom_pad1_def)
  have z: "fwd_flat geom_pad1 0 0 0 1 0 2 = 27"
    "unat (thread_index (thread_no 27)) = 27" "zeros 27 = 0"
    by (simp_all add: fwd_flat_def thread_index_def thread_no_def zeros_def geom_pad1_def)
  from zero_fill_respected[OF h, of "thread_no 27" ramp
      "[thread_no 0, thread_no 27, thread_no 31]" zeros]
  show ?thesis using h unfolding z by auto
qed

section \<open>Integer widths\<close>

text \<open>
  C8, with the widths that the source uses. The thread index is computed in 32 bits and
  equals the exact value \<open>blockIdx.x * blockDim.x + threadIdx.x\<close> when that is below
  \<open>2^32\<close>. For each extractor whose exact patches element count is below \<open>2^64\<close>: the
  computed count is the exact count; the decomposition of a thread index below the count
  yields the exact mixed-radix digits of the index; and the computed source offset of
  in-range coordinates is the exact row-major offset, provided the exact element count of
  the source tensor is below \<open>2^64\<close> as well.
\<close>

theorem index_arithmetic_exact:
  "(exact_index t < 2^32 \<longrightarrow> unat (thread_index t) = exact_index t)
   \<and> (fwd_patches_numel op < 2^64 \<longrightarrow>
        unat (unfold_input_numel op) = fwd_patches_numel op
        \<and> (unat i < fwd_patches_numel op \<longrightarrow>
            (\<exists>b c k1 k2 oh ow. unfold_input_coords op i = Some (b, c, k1, k2, oh, ow)
               \<and> (unat b, unat c, unat k1, unat k2, unat oh, unat ow) = fwd_digits op (unat i)))
        \<and> (image_numel op < 2^64 \<and> unat b < unat (batch op) \<and> unat c < unat (chan_in op)
            \<and> unat y < unat (h_in op) \<and> unat x < unat (w_in op) \<longrightarrow>
            unat (image_offset op b c y x) = image_at op (unat b) (unat c) (unat y) (unat x)))
   \<and> (bwd_patches_numel op < 2^64 \<longrightarrow>
        unat (unfold_output_numel op) = bwd_patches_numel op
        \<and> (unat i < bwd_patches_numel op \<longrightarrow>
            (\<exists>b oc k1 k2 y x. unfold_output_coords op i = Some (b, oc, k1, k2, y, x)
               \<and> (unat b, unat oc, unat k1, unat k2, unat y, unat x) = bwd_digits op (unat i)))
        \<and> (image_out_numel op < 2^64 \<and> unat b < unat (batch op) \<and> unat oc < unat (chan_out op)
            \<and> unat oh < unat (h_out op) \<and> unat ow < unat (w_out op) \<longrightarrow>
            unat (image_out_offset op b oc oh ow)
              = image_out_at op (unat b) (unat oc) (unat oh) (unat ow)))"
proof -
  have 1: "fwd_patches_numel op < 2^64 \<Longrightarrow> unat (unfold_input_numel op) = fwd_patches_numel op"
    by (simp add: unfold_input_numel_of_nat unat_of_nat)
  have 2: "bwd_patches_numel op < 2^64 \<Longrightarrow> unat (unfold_output_numel op) = bwd_patches_numel op"
    by (simp add: unfold_output_numel_of_nat unat_of_nat)
  show ?thesis
    using 1 2 thread_index_exact[of t] unfold_input_coords_exact[of op i]
      unfold_output_coords_exact[of op i]
      image_offset_exact[of op b c y x] image_out_offset_exact[of op b oc oh ow]
    by blast
qed

theorem index_arithmetic_exact_witness:
  "exact_index (thread_no 80) < 2^32 \<and> unat (thread_index (thread_no 80)) = 80
   \<and> fwd_patches_numel geom_5x5 < 2^64 \<and> unat (unfold_input_numel geom_5x5) = 81
   \<and> unat (80 :: uint) < fwd_patches_numel geom_5x5
   \<and> unfold_input_coords geom_5x5 80 = Some (0, 0, 2, 2, 2, 2)
   \<and> fwd_digits geom_5x5 80 = (0, 0, 2, 2, 2, 2)
   \<and> image_numel geom_5x5 < 2^64 \<and> unat (image_offset geom_5x5 0 0 4 4) = 24
   \<and> image_at geom_5x5 0 0 4 4 = 24
   \<and> bwd_patches_numel geom_5x5 < 2^64 \<and> unat (unfold_output_numel geom_5x5) = 225
   \<and> unat (80 :: uint) < bwd_patches_numel geom_5x5
   \<and> unfold_output_coords geom_5x5 80 = Some (0, 0, 1, 0, 1, 0)
   \<and> bwd_digits geom_5x5 80 = (0, 0, 1, 0, 1, 0)
   \<and> image_out_numel geom_5x5 < 2^64 \<and> unat (image_out_offset geom_5x5 0 0 2 2) = 8
   \<and> image_out_at geom_5x5 0 0 2 2 = 8"
proof -
  have e: "fwd_patches_numel geom_5x5 = 81" "bwd_patches_numel geom_5x5 = 225"
    "exact_index (thread_no 80) = 80" "fwd_digits geom_5x5 80 = (0, 0, 2, 2, 2, 2)"
    "bwd_digits geom_5x5 80 = (0, 0, 1, 0, 1, 0)"
    "image_numel geom_5x5 = 25" "image_out_numel geom_5x5 = 9"
    "image_at geom_5x5 0 0 4 4 = 24" "image_out_at geom_5x5 0 0 2 2 = 8"
    "unat (batch geom_5x5) = 1" "unat (chan_in geom_5x5) = 1" "unat (chan_out geom_5x5) = 1"
    "unat (h_in geom_5x5) = 5" "unat (w_in geom_5x5) = 5"
    "unat (h_out geom_5x5) = 3" "unat (w_out geom_5x5) = 3"
    by (simp_all add: fwd_patches_numel_def bwd_patches_numel_def geom_5x5_def exact_index_def
        thread_no_def fwd_digits_def bwd_digits_def image_numel_def image_out_numel_def
        image_at_def image_out_at_def)
  have c: "unfold_input_coords geom_5x5 80 = Some (0, 0, 2, 2, 2, 2)"
    "unfold_output_coords geom_5x5 80 = Some (0, 0, 1, 0, 1, 0)"
    by (simp_all add: unfold_input_coords_def unfold_output_coords_def divmod_idx_def geom_5x5_def)
  from index_arithmetic_exact[of "thread_no 80" geom_5x5 80 0 0 4 4 0 2 2]
  show ?thesis using e c by simp
qed

text \<open>
  As stated, for every geometry whose patches element count is representable, C8 fails.
  \<open>geom_many\<close> has \<open>2^32 + 65536\<close> patches elements; the thread with exact index \<open>2^32\<close>
  holds index 0 in its \<open>unsigned int\<close>. \<open>geom_big_image\<close> has two patches elements; the
  image offset of the in-range coordinate \<open>(1, 0, 0, 0)\<close> is computed as 0, its exact
  value is \<open>2^64\<close>.
\<close>

theorem index_arithmetic_counterexample:
  "(fwd_patches_numel geom_many < 2^64
      \<and> exact_index thread_2p32 = 4294967296
      \<and> exact_index thread_2p32 < fwd_patches_numel geom_many
      \<and> unat (thread_index thread_2p32) = 0)
   \<and> (fwd_patches_numel geom_big_image < 2^64
      \<and> unat (1 :: size_t) < unat (batch geom_big_image)
      \<and> unat (0 :: size_t) < unat (chan_in geom_big_image)
      \<and> unat (0 :: size_t) < unat (h_in geom_big_image)
      \<and> unat (0 :: size_t) < unat (w_in geom_big_image)
      \<and> unat (image_offset geom_big_image 1 0 0 0) = 0
      \<and> image_at geom_big_image 1 0 0 0 = 18446744073709551616)"
proof -
  have a: "fwd_patches_numel geom_many < 2^64
      \<and> exact_index thread_2p32 = 4294967296
      \<and> exact_index thread_2p32 < fwd_patches_numel geom_many
      \<and> unat (thread_index thread_2p32) = 0"
    by (simp add: fwd_patches_numel_def geom_many_def exact_index_def
        thread_2p32_def thread_index_def)
  have b: "fwd_patches_numel geom_big_image < 2^64
      \<and> unat (1 :: size_t) < unat (batch geom_big_image)
      \<and> unat (0 :: size_t) < unat (chan_in geom_big_image)
      \<and> unat (0 :: size_t) < unat (h_in geom_big_image)
      \<and> unat (0 :: size_t) < unat (w_in geom_big_image)
      \<and> unat (image_offset geom_big_image 1 0 0 0) = 0
      \<and> image_at geom_big_image 1 0 0 0 = 18446744073709551616"
    by (simp add: fwd_patches_numel_def geom_big_image_def image_offset_def image_at_def)
  show ?thesis using a b by blast
qed

section \<open>Reads stay inside the source tensors\<close>

text \<open>
  C9, with the condition under which the backward extractor is defined. Whatever the
  geometry descriptor (also one whose \<open>h_out\<close> and \<open>w_out\<close> do not follow the output-size
  formula) and whatever the thread coordinates: a thread of \<open>unfold_input_into_patches\<close>
  has no undefined operation; a thread of \<open>unfold_output_into_patches\<close> has none when the
  stride is not zero; and a thread of an extractor that reads its source tensor reads at
  an offset strictly below the exact element count of that tensor: below
  batch * chan_in * h_in * w_in in \<open>unfold_input_into_patches\<close> and below
  batch * chan_out * h_out * w_out in \<open>unfold_output_into_patches\<close>.
\<close>

theorem extractor_reads_in_bounds:
  "unfold_input_access op t \<noteq> None
   \<and> (unfold_input_access op t = Some (Copy d s) \<longrightarrow> s < image_numel op)
   \<and> (stride op \<noteq> 0 \<longrightarrow> unfold_output_access op t' \<noteq> None)
   \<and> (unfold_output_access op t' = Some (Copy d' s') \<longrightarrow> s' < image_out_numel op)"
  using unfold_input_access_Copy[of op t d s] unfold_output_access_Copy[of op t' d' s']
    unfold_input_access_defined[of op t] unfold_output_access_defined[of op t']
  by blast

theorem extractor_reads_in_bounds_witness:
  "unfold_input_access geom_5x5 (thread_no 80) = Some (Copy 80 24)
   \<and> 24 < image_numel geom_5x5
   \<and> stride geom_5x5 \<noteq> 0
   \<and> unfold_output_access geom_5x5 (thread_no 224) = Some (Copy 224 8)
   \<and> 8 < image_out_numel geom_5x5"
proof -
  have a: "unfold_input_access geom_5x5 (thread_no 80) = Some (Copy 80 24)"
    by (simp add: unfold_input_access_def unfold_input_numel_def unfold_input_coords_def
        image_offset_def geom_5x5_def thread_no_def thread_index_def divmod_idx_def solve_in_def)
  have b: "unfold_output_access geom_5x5 (thread_no 224) = Some (Copy 224 8)"
    by (simp add: unfold_output_access_def unfold_output_numel_def unfold_output_coords_def
        image_out_offset_def geom_5x5_def thread_no_def thread_index_def divmod_idx_def
        solve_out_def)
  have c: "stride geom_5x5 \<noteq> 0" by (simp add: geom_5x5_def)
  show ?thesis
    using extractor_reads_in_bounds[of geom_5x5 "thread_no 80" 80 24 "thread_no 224" 224 8] a b c
    by simp
qed

text \<open>
  As stated, for every geometry descriptor, C9 fails. In \<open>geom_stride0\<close> the thread of the
  patches element \<open>(0, 0, 2, 2, 4, 4)\<close>, at flat index 224, passes the first guard and
  evaluates \<open>oh % stride\<close> with stride 0: its behaviour is undefined, and nothing bounds
  what it reads.
\<close>

theorem extractor_reads_counterexample:
  "stride geom_stride0 = 0
   \<and> exact_index (thread_no 224) = bwd_flat geom_stride0 0 0 2 2 4 4
   \<and> bwd_flat geom_stride0 0 0 2 2 4 4 < bwd_patches_numel geom_stride0
   \<and> unfold_output_access geom_stride0 (thread_no 224) = None"
  by (simp add: geom_stride0_def geom_5x5_def exact_index_def thread_no_def bwd_flat_def
      bwd_patches_numel_def unfold_output_access_def unfold_output_numel_def
      unfold_output_coords_def thread_index_def divmod_idx_def solve_out_def
      word_le_nat_alt word_less_nat_alt)

section \<open>The broadcast writes each destination element once\<close>

text \<open>
  C10, with the same size conditions. For every geometry descriptor with fewer than
  \<open>2^31\<close> batch slices and at most \<open>2^32\<close> filter elements: every pair of a unit index
  and a batch-loop index has a write target; the map from these pairs to destination
  offsets is a bijection onto the index range of the destination tensor; a thread
  with a unit index writes the value it read at exactly the targets of its unit; and
  after a launch that includes a thread for every unit index the destination tensor is
  a function of the filter tensor alone, whatever the destination held before.
\<close>

theorem transpose_writes_each_element_once:
  assumes "unat (batch op) < 2^31" and "filters_numel op \<le> 2^32"
  shows "(\<forall>n<filters_numel op. \<forall>b<unat (batch op). write_target op n b \<noteq> None)
     \<and> bij_betw (\<lambda>(n, b). the (write_target op n b))
          ({..<filters_numel op} \<times> {..<unat (batch op)}) {..<filters_tr_numel op}
     \<and> (unat (thread_index t) < filters_numel op \<longrightarrow>
          transpose_and_broadcast_filters op filters dst t =
            Some (\<lambda>d. if d \<in> (\<lambda>b. the (write_target op (unat (thread_index t)) b))
                              ` {..<unat (batch op)}
                       then filters (unat (thread_index t)) else dst d))
     \<and> ((\<forall>n<filters_numel op. \<exists>t\<in>set ts. exact_index t = n) \<longrightarrow>
          (\<exists>r. \<forall>dst'. launch (\<lambda>t m. transpose_and_broadcast_filters op filters m t) ts dst'
                   = Some (\<lambda>d. if d < filters_tr_numel op then r d else dst' d)))"
proof -
  have B: "unat (batch op) < 2147483648" and N: "filters_numel op \<le> 4294967296"
    using assms by simp_all
  have 1: "\<forall>n<filters_numel op. \<forall>b<unat (batch op). write_target op n b \<noteq> None"
  proof (intro allI impI)
    fix n b assume n: "n < filters_numel op" and b: "b < unat (batch op)"
    obtain oc c k1 k2 where dg: "filter_digits op n = (oc, c, k1, k2)" by (metis prod_cases4)
    show "write_target op n b \<noteq> None" by (simp add: write_target_eq[OF B N n b dg])
  qed
  have 4: "\<exists>r. \<forall>dst'. launch (\<lambda>t m. transpose_and_broadcast_filters op filters m t) ts dst'
                   = Some (\<lambda>d. if d < filters_tr_numel op then r d else dst' d)"
    if cover: "\<forall>n<filters_numel op. \<exists>t\<in>set ts. exact_index t = n"
    by (intro exI[of _ "\<lambda>d. filters (transposed_source op d)"] allI)
       (rule transpose_launch[OF B N cover_exact[OF N cover]])
  show ?thesis
    using 1 write_target_bij[OF B N] transpose_thread_targets[OF B N, of t filters dst] 4
    by blast
qed

theorem transpose_writes_each_element_once_witness:
  "unat (batch geom_filters) < 2^31 \<and> filters_numel geom_filters \<le> 2^32
   \<and> filters_numel geom_filters = 4 \<and> unat (batch geom_filters) = 2
   \<and> filters_tr_numel geom_filters = 8
   \<and> write_target geom_filters 1 1 \<noteq> None
   \<and> bij_betw (\<lambda>(n, b). the (write_target geom_filters n b)) ({..<4} \<times> {..<2}) {..<8}
   \<and> unat (thread_index (thread_no 1)) < filters_numel geom_filters
   \<and> transpose_and_broadcast_filters geom_filters ramp zeros (thread_no 1) =
        Some (\<lambda>d. if d \<in> (\<lambda>b. the (write_target geom_filters 1 b)) ` {..<2} then ramp 1
                   else zeros d)"
proof -
  have e: "filters_numel geom_filters = 4" "unat (batch geom_filters) = 2"
    "filters_tr_numel geom_filters = 8" "unat (thread_index (thread_no 1)) = 1"
    by (simp_all add: filters_numel_def filters_tr_numel_def geom_filters_def thread_index_def
        thread_no_def)
  have h: "unat (batch geom_filters) < 2^31" "filters_numel geom_filters \<le> 2^32"
    unfolding e by simp_all
  note w = transpose_writes_each_element_once[OF h, of "thread_no 1" ramp zeros "[]", unfolded e]
  have "write_target geom_filters 1 1 \<noteq> None" using w by simp
  then show ?thesis using w h e by simp
qed

text \<open>
  Without the size conditions C10 fails. With \<open>2^31\<close> batch slices the thread of unit 0
  has undefined behaviour. In \<open>geom_deep\<close> (three slices of \<open>2^63\<close> elements) iterations
  0 and 2 of unit 0 write the same destination offset, because \<open>2 * numel\<close> wraps. In
  \<open>geom_wide\<close> units \<open>2^32\<close> and 0 write the same destination offset, because the unit
  index is held in 32 bits.
\<close>

theorem transpose_writes_counterexample:
  "((0::nat) < filters_numel geom_batch_2p31
      \<and> transpose_and_broadcast_filters geom_batch_2p31 ones zeros (thread_no 0) = None)
   \<and> ((0::nat) < filters_numel geom_deep \<and> (2::nat) < unat (batch geom_deep)
      \<and> write_target geom_deep 0 0 = Some 0 \<and> write_target geom_deep 0 2 = Some 0)
   \<and> ((4294967296::nat) < filters_numel geom_wide \<and> (0::nat) < unat (batch geom_wide)
      \<and> write_target geom_wide 4294967296 0 = Some 0 \<and> write_target geom_wide 0 0 = Some 0)"
proof -
  have "broadcast_loop (batch geom_batch_2p31) (transpose_numel geom_batch_2p31) 0 (ones 0) 0 zeros = None"
    by (rule broadcast_loop_overflow) (simp_all add: geom_batch_2p31_def INT_MAX_def)
  then have a: "(0::nat) < filters_numel geom_batch_2p31
      \<and> transpose_and_broadcast_filters geom_batch_2p31 ones zeros (thread_no 0) = None"
    by (simp add: transpose_and_broadcast_filters_def thread_no_def thread_index_def
        transposed_offset_0 geom_batch_2p31_def transpose_numel_def word_le_nat_alt
        filters_numel_def)
  have b: "(0::nat) < filters_numel geom_deep \<and> (2::nat) < unat (batch geom_deep)
      \<and> write_target geom_deep 0 0 = Some 0 \<and> write_target geom_deep 0 2 = Some 0"
    by (simp add: write_target_def transposed_offset_0 geom_deep_def slot_def transpose_numel_def
        filters_numel_def)
  have z: "(of_nat 4294967296 :: uint) = 0"
    by (simp add: word_unat_eq_iff unat_of_nat)
  have c: "(4294967296::nat) < filters_numel geom_wide \<and> (0::nat) < unat (batch geom_wide)
      \<and> write_target geom_wide 4294967296 0 = Some 0 \<and> write_target geom_wide 0 0 = Some 0"
    unfolding write_target_def z
    by (simp add: transposed_offset_0 geom_wide_def slot_def transpose_numel_def
        filters_numel_def)
  show ?thesis using a b c by blast
qed

end
